theory Spec2Isabelle
  imports Main "HOL-Library.Word"
begin

unbundle bit_operations_syntax

section \<open>Values and types of the Go program\<close>

text \<open>
  The package moves values of static type \<open>any\<close> around: query parameters, the cells
  of a result row, the bindings kept in an error.  A value of type \<open>any\<close> is modelled by
  the datatype \<open>val\<close>, one constructor per dynamic type the code distinguishes.  The
  platform is taken to be a 64-bit one, so \<open>int\<close> and \<open>uint\<close> are 64 bits wide.

  A \<open>float64\<close> is kept as its IEEE-754 bit pattern; a \<open>float32\<close> value is kept as the
  bit pattern of the \<open>float64\<close> that \<open>reflect.Value.Float\<close> returns for it.  Strings
  and byte slices are sequences of bytes (\<open>char\<close> is a byte).
\<close>

datatype ikind = KInt | KInt8 | KInt16 | KInt32 | KInt64

datatype ukind = KUint | KUint8 | KUint16 | KUint32 | KUint64

datatype fkind = KFloat32 | KFloat64

type_synonym float64 = "64 word"

datatype location = UTC | Local | Zone string int

text \<open>
  A \<open>time.Time\<close>: the instant as seconds since the Unix epoch plus nanoseconds, and
  the location it is displayed in.
\<close>

datatype gotime = Time int nat location

text \<open>
  \<open>gotype\<close> is a \<open>reflect.Type\<close>: the predeclared boolean, numeric and string types,
  \<open>[]byte\<close> (\<open>TBytes\<close>), \<open>time.Time\<close> (\<open>TTime\<close>), the empty interface (\<open>TAny\<close>, only
  a static type), and \<open>TOpaque n\<close>, the \<open>n\<close>-th type of another kind (a struct, a map,
  a pointer, ...).  Two different opaque types are taken not to convert into each
  other.  Defined types whose underlying type is a boolean, a number or a string are
  outside the model (\<open>reflect\<close> treats them through their kind, a type switch does
  not).
\<close>

datatype gotype =
    TBool
  | TInt ikind
  | TUint ukind
  | TFloat fkind
  | TString
  | TBytes
  | TTime
  | TAny
  | TOpaque nat

text \<open>
  \<open>VNil\<close> is the untyped \<open>nil\<close> interface value; \<open>VBytes None\<close> is the \<open>nil\<close> slice;
  \<open>VOpaque n h\<close> is the value \<open>h\<close> of the opaque type \<open>n\<close>, \<open>VOpaque n 0\<close> being its
  zero value.
\<close>

datatype val =
    VNil
  | VBool bool
  | VInt ikind int
  | VUint ukind int
  | VFloat fkind float64
  | VString string
  | VBytes "string option"
  | VTime gotime
  | VOpaque nat nat

datatype kind =
    KdBool
  | KdInt ikind
  | KdUint ukind
  | KdFloat fkind
  | KdString
  | KdSlice
  | KdStruct
  | KdInterface
  | KdOther

fun Kind :: "gotype \<Rightarrow> kind" where
  "Kind TBool = KdBool"
| "Kind (TInt k) = KdInt k"
| "Kind (TUint k) = KdUint k"
| "Kind (TFloat k) = KdFloat k"
| "Kind TString = KdString"
| "Kind TBytes = KdSlice"
| "Kind TTime = KdStruct"
| "Kind TAny = KdInterface"
| "Kind (TOpaque n) = KdOther"

text \<open>The dynamic type of a non-nil value (\<open>reflect.ValueOf(v).Type()\<close>).\<close>

fun TypeOf :: "val \<Rightarrow> gotype option" where
  "TypeOf VNil = None"
| "TypeOf (VBool b) = Some TBool"
| "TypeOf (VInt k i) = Some (TInt k)"
| "TypeOf (VUint k u) = Some (TUint k)"
| "TypeOf (VFloat k f) = Some (TFloat k)"
| "TypeOf (VString s) = Some TString"
| "TypeOf (VBytes b) = Some TBytes"
| "TypeOf (VTime t) = Some TTime"
| "TypeOf (VOpaque n h) = Some (TOpaque n)"

subsection \<open>Timestamps\<close>

text \<open>
  The zero \<open>time.Time\<close> is January 1, year 1, 00:00:00 UTC, which is 62135596800
  seconds before the Unix epoch.  \<open>IsZero\<close> compares the instant only.
\<close>

definition zero_time :: gotime where
  "zero_time = Time (- 62135596800) 0 UTC"

fun IsZero :: "gotime \<Rightarrow> bool" where
  "IsZero (Time s n l) = (s = - 62135596800 \<and> n = 0)"

fun Time_UTC :: "gotime \<Rightarrow> gotime" where
  "Time_UTC (Time s n l) = Time s n UTC"

fun Time_Unix :: "gotime \<Rightarrow> int" where
  "Time_Unix (Time s n l) = s"

definition time_Unix :: "int \<Rightarrow> nat \<Rightarrow> gotime" where
  "time_Unix s n = Time s n Local"

section \<open>Errors\<close>

text \<open>
  Go's \<open>error\<close> values.  \<open>Plain m\<close> is an error made by \<open>errors.New\<close> or by
  \<open>fmt.Errorf\<close> without \<open>%w\<close>; \<open>Wrap m e\<close> is \<open>fmt.Errorf("m: %w", e)\<close>, which
  unwraps to \<open>e\<close>; \<open>CannotConvert src st dt\<close> is the error \<open>assign\<close> formats from the
  source value and the two types.  A panic is not an error value: it is the left
  summand of a function's result.
\<close>

datatype error =
    ErrNoRows
  | ErrSQLite
  | ErrNotFound
  | Plain string
  | Wrap string error
  | D1Error int string
  | SQLiteError string string "val list" string
  | CannotConvert val gotype gotype

datatype panic = IndexOutOfRange | NilDereference | ReflectPanic

text \<open>\<open>errors.As(err, &d1Err)\<close> for a target of type \<open>*D1Error\<close>: the first
  \<open>D1Error\<close> in the chain of wrapped errors.\<close>

fun errors_As_D1Error :: "error \<Rightarrow> (int \<times> string) option" where
  "errors_As_D1Error (D1Error c m) = Some (c, m)"
| "errors_As_D1Error (Wrap m e) = errors_As_D1Error e"
| "errors_As_D1Error ErrNoRows = None"
| "errors_As_D1Error ErrSQLite = None"
| "errors_As_D1Error ErrNotFound = None"
| "errors_As_D1Error (Plain m) = None"
| "errors_As_D1Error (SQLiteError m q b c) = None"
| "errors_As_D1Error (CannotConvert v s d) = None"


fun Index :: "string \<Rightarrow> string \<Rightarrow> nat option" where
  "Index [] sep = (if sep = [] then Some 0 else None)"
| "Index (c # cs) sep =
     (if take (length sep) (c # cs) = sep then Some 0
      else map_option Suc (Index cs sep))"

definition SplitN2 :: "string \<Rightarrow> string \<Rightarrow> string list" where
  "SplitN2 s sep =
     (case Index s sep of
        None \<Rightarrow> [s]
      | Some m \<Rightarrow> [take m s, drop (m + length sep) s])"

definition convertSQLiteError :: "error option \<Rightarrow> string \<Rightarrow> val list \<Rightarrow> error option" where
  "convertSQLiteError err query bindings =
     (case err of
        None \<Rightarrow> None
      | Some e \<Rightarrow>
          (case errors_As_D1Error e of
             None \<Rightarrow> err
           | Some (code, msg) \<Rightarrow>
               if code = 7500 then
                 (let parts = SplitN2 msg '': SQLITE_'';
                      message = parts ! 0;
                      sqliteCode = (if length parts = 2 then ''SQLITE_'' @ parts ! 1
                                    else ''SQLITE_ERROR'')
                  in Some (SQLiteError message query bindings sqliteCode))
               else err))"

section \<open>Query parameters\<close>

text \<open>
  \<open>convertTypes\<close> allocates a result slice of the input's length and fills it index
  by index; the type switch (\<open>convertTypes_switch\<close>) has a case for \<open>time.Time\<close>, a
  case for \<open>bool\<close> and a default.
\<close>

definition convertTypes_switch :: "val \<Rightarrow> val" where
  "convertTypes_switch v =
     (case v of
        VTime t \<Rightarrow>
          if IsZero t then VInt KInt 0
          else VInt KInt (Time_Unix (Time_UTC t))
      | VBool b \<Rightarrow> if b then VInt KInt 1 else VInt KInt 0
      | _ \<Rightarrow> v)"

fun convertTypes_range :: "nat \<Rightarrow> val list \<Rightarrow> val list \<Rightarrow> val list" where
  "convertTypes_range i [] result = result"
| "convertTypes_range i (v # vs) result =
     convertTypes_range (Suc i) vs (result[i := convertTypes_switch v])"

definition convertTypes :: "val list \<Rightarrow> val list" where
  "convertTypes input = convertTypes_range 0 input (replicate (length input) VNil)"

section \<open>The coercion engine\<close>

subsection \<open>Library functions\<close>

text \<open>
  The functions of Go's standard library that \<open>assign\<close> calls and whose results
  depend on floating-point arithmetic, on number and date syntax, on Unicode tables or
  on the methods of a caller's own type are parameters of the model: a \<open>stdlib\<close>
  record holds them.  \<open>ParseInt L s n\<close> is \<open>strconv.ParseInt(s, 0, n)\<close> with \<open>None\<close>
  for an error, likewise \<open>ParseUint\<close> and \<open>ParseFloat\<close>; \<open>FormatFloat L f\<close> is
  \<open>strconv.FormatFloat(f, 'f', -1, 64)\<close>; \<open>float_to_int64\<close>, \<open>float_to_uint64\<close>,
  \<open>int64_to_float\<close>, \<open>uint64_to_float\<close> and \<open>to_float32\<close> are Go's numeric
  conversions; \<open>time_Parse_RFC3339 L s\<close> is \<open>time.Parse(time.RFC3339, s)\<close>;
  \<open>Scanner_Scan L n h src\<close> is \<open>None\<close> when the opaque type \<open>n\<close> does not implement
  \<open>sql.Scanner\<close>, and otherwise the error returned by the \<open>Scan\<close> method of its value
  \<open>h\<close> together with the value afterwards; \<open>unicode_ToLower\<close> is
  \<open>strings.Map(unicode.ToLower, s)\<close>.
\<close>

record stdlib =
  ParseInt :: "string \<Rightarrow> nat \<Rightarrow> int option"
  ParseUint :: "string \<Rightarrow> nat \<Rightarrow> int option"
  ParseFloat :: "string \<Rightarrow> nat \<Rightarrow> float64 option"
  FormatFloat :: "float64 \<Rightarrow> string"
  float_to_int64 :: "float64 \<Rightarrow> int"
  float_to_uint64 :: "float64 \<Rightarrow> int"
  int64_to_float :: "int \<Rightarrow> float64"
  uint64_to_float :: "int \<Rightarrow> float64"
  to_float32 :: "float64 \<Rightarrow> float64"
  time_Parse_RFC3339 :: "string \<Rightarrow> gotime option"
  Scanner_Scan :: "nat \<Rightarrow> nat \<Rightarrow> val \<Rightarrow> (error option \<times> nat) option"
  unicode_ToLower :: "string \<Rightarrow> string"

subsection \<open>Integer widths\<close>

fun ibits :: "ikind \<Rightarrow> nat" where
  "ibits KInt = 64"
| "ibits KInt8 = 8"
| "ibits KInt16 = 16"
| "ibits KInt32 = 32"
| "ibits KInt64 = 64"

fun ubits :: "ukind \<Rightarrow> nat" where
  "ubits KUint = 64"
| "ubits KUint8 = 8"
| "ubits KUint16 = 16"
| "ubits KUint32 = 32"
| "ubits KUint64 = 64"

fun fbits :: "fkind \<Rightarrow> nat" where
  "fbits KFloat32 = 32"
| "fbits KFloat64 = 64"

text \<open>Truncation of an integer to \<open>n\<close> bits, read as two's complement or unsigned.\<close>

definition wrap_signed :: "nat \<Rightarrow> int \<Rightarrow> int" where
  "wrap_signed n x = (x + 2 ^ (n - 1)) mod 2 ^ n - 2 ^ (n - 1)"

definition wrap_unsigned :: "nat \<Rightarrow> int \<Rightarrow> int" where
  "wrap_unsigned n x = x mod 2 ^ n"

text \<open>\<open>reflect.Value.SetInt\<close>, \<open>SetUint\<close> and \<open>SetFloat\<close> store the value truncated
  to the destination's width.\<close>

definition SetInt :: "ikind \<Rightarrow> int \<Rightarrow> val" where
  "SetInt k x = VInt k (wrap_signed (ibits k) x)"

definition SetUint :: "ukind \<Rightarrow> int \<Rightarrow> val" where
  "SetUint k x = VUint k (wrap_unsigned (ubits k) x)"

definition SetFloat :: "stdlib \<Rightarrow> fkind \<Rightarrow> float64 \<Rightarrow> val" where
  "SetFloat L k f = VFloat k (case k of KFloat32 \<Rightarrow> to_float32 L f | KFloat64 \<Rightarrow> f)"

subsection \<open>Formatting and parsing\<close>

text \<open>\<open>strconv.FormatUint(u, 10)\<close> and \<open>strconv.FormatInt(i, 10)\<close>: the decimal
  digits, most significant first, with a minus sign for a negative number.\<close>

definition digit_char :: "int \<Rightarrow> char" where
  "digit_char d = char_of (48 + d)"

function FormatUint :: "int \<Rightarrow> string" where
  "FormatUint u =
     (if u < 10 then [digit_char u] else FormatUint (u div 10) @ [digit_char (u mod 10)])"
  by pat_completeness auto
termination
  by (relation "measure nat") auto

definition FormatInt :: "int \<Rightarrow> string" where
  "FormatInt i = (if i < 0 then CHR ''-'' # FormatUint (- i) else FormatUint i)"

text \<open>The number that a string of decimal digits denotes.\<close>

definition digits_value :: "string \<Rightarrow> int" where
  "digits_value s = foldl (\<lambda>a c. 10 * a + (of_char c - 48)) 0 s"

definition FormatBool :: "bool \<Rightarrow> string" where
  "FormatBool b = (if b then ''true'' else ''false'')"

definition ParseBool :: "string \<Rightarrow> bool option" where
  "ParseBool s =
     (if s \<in> set [''1'', ''t'', ''T'', ''TRUE'', ''true'', ''True''] then Some True
      else if s \<in> set [''0'', ''f'', ''F'', ''FALSE'', ''false'', ''False''] then Some False
      else None)"

text \<open>
  The conversion \<open>string(rune)\<close>: the UTF-8 encoding of a code point, and the encoding
  of U+FFFD for a number that is not a valid code point.  \<open>cvtIntString\<close> and
  \<open>cvtUintString\<close> of package \<open>reflect\<close> convert an integer to a string this way.
\<close>

definition RuneError :: string where
  "RuneError = [char_of (0xEF :: int), char_of (0xBF :: int), char_of (0xBD :: int)]"

definition EncodeRune :: "int \<Rightarrow> string" where
  "EncodeRune r =
     (if 0 \<le> r \<and> r \<le> 0x7F then [char_of r]
      else if 0 \<le> r \<and> r \<le> 0x7FF then
        [char_of (0xC0 + r div 64), char_of (0x80 + r mod 64)]
      else if r < 0 \<or> 0x10FFFF < r \<or> (0xD800 \<le> r \<and> r \<le> 0xDFFF) then RuneError
      else if r \<le> 0xFFFF then
        [char_of (0xE0 + r div 4096), char_of (0x80 + (r div 64) mod 64),
         char_of (0x80 + r mod 64)]
      else
        [char_of (0xF0 + r div 262144), char_of (0x80 + (r div 4096) mod 64),
         char_of (0x80 + (r div 64) mod 64), char_of (0x80 + r mod 64)])"

definition cvtIntString :: "int \<Rightarrow> string" where
  "cvtIntString x =
     (if - (2 ^ 31) \<le> x \<and> x < 2 ^ 31 then EncodeRune x else RuneError)"

subsection \<open>Zero values and conversions\<close>

fun Zero :: "gotype \<Rightarrow> val" where
  "Zero TBool = VBool False"
| "Zero (TInt k) = VInt k 0"
| "Zero (TUint k) = VUint k 0"
| "Zero (TFloat k) = VFloat k 0"
| "Zero TString = VString []"
| "Zero TBytes = VBytes None"
| "Zero TTime = VTime zero_time"
| "Zero TAny = VNil"
| "Zero (TOpaque n) = VOpaque n 0"

text \<open>\<open>reflect.Type.ConvertibleTo\<close> on the types of the model: numbers convert to
  numbers, integers to strings, strings and byte slices to each other, every type to
  the empty interface and to itself.\<close>

fun ConvertibleTo :: "gotype \<Rightarrow> gotype \<Rightarrow> bool" where
  "ConvertibleTo (TInt k) (TInt k') = True"
| "ConvertibleTo (TInt k) (TUint k') = True"
| "ConvertibleTo (TInt k) (TFloat k') = True"
| "ConvertibleTo (TInt k) TString = True"
| "ConvertibleTo (TUint k) (TInt k') = True"
| "ConvertibleTo (TUint k) (TUint k') = True"
| "ConvertibleTo (TUint k) (TFloat k') = True"
| "ConvertibleTo (TUint k) TString = True"
| "ConvertibleTo (TFloat k) (TInt k') = True"
| "ConvertibleTo (TFloat k) (TUint k') = True"
| "ConvertibleTo (TFloat k) (TFloat k') = True"
| "ConvertibleTo TString TBytes = True"
| "ConvertibleTo TBytes TString = True"
| "ConvertibleTo st TAny = True"
| "ConvertibleTo st dt = (st = dt)"

text \<open>\<open>reflect.Value.Convert\<close> for a pair of types that \<open>ConvertibleTo\<close> accepts.\<close>

fun Convert :: "stdlib \<Rightarrow> val \<Rightarrow> gotype \<Rightarrow> val" where
  "Convert L (VInt k i) (TInt k') = SetInt k' i"
| "Convert L (VInt k i) (TUint k') = SetUint k' i"
| "Convert L (VInt k i) (TFloat k') = SetFloat L k' (int64_to_float L i)"
| "Convert L (VInt k i) TString = VString (cvtIntString i)"
| "Convert L (VUint k u) (TInt k') = SetInt k' u"
| "Convert L (VUint k u) (TUint k') = SetUint k' u"
| "Convert L (VUint k u) (TFloat k') = SetFloat L k' (uint64_to_float L u)"
| "Convert L (VUint k u) TString = VString (if u < 2 ^ 31 then EncodeRune u else RuneError)"
| "Convert L (VFloat k f) (TInt k') = SetInt k' (float_to_int64 L f)"
| "Convert L (VFloat k f) (TUint k') = SetUint k' (float_to_uint64 L f)"
| "Convert L (VFloat k f) (TFloat k') = SetFloat L k' f"
| "Convert L (VString s) TBytes = VBytes (Some s)"
| "Convert L (VBytes b) TString = VString (case b of None \<Rightarrow> [] | Some s \<Rightarrow> s)"
| "Convert L v dt = v"

subsection \<open>The function \<open>assign\<close>\<close>

text \<open>
  \<open>float_nonzero f\<close> is the comparison \<open>f != 0\<close>: both signed zeros compare equal to 0.
  \<open>float_one\<close> is the bit pattern of 1.0.
\<close>

definition float_nonzero :: "float64 \<Rightarrow> bool" where
  "float_nonzero f = (f AND 0x7FFFFFFFFFFFFFFF \<noteq> 0)"

definition float_one :: float64 where
  "float_one = 0x3FF0000000000000"

text \<open>
  The block before \<open>ConvertibleTo\<close>: when the destination is of kind
  \<open>String\<close> and the source of kind \<open>Int\<close> or \<open>Uint\<close>, the number is formatted in
  decimal.  The result is \<open>None\<close> when the block is not entered.
\<close>

definition assign_format_int :: "gotype \<Rightarrow> gotype \<Rightarrow> val \<Rightarrow> val option" where
  "assign_format_int dt st src =
     (if Kind dt = KdString \<and> (Kind st = KdInt KInt \<or> Kind st = KdUint KUint) then
        (case src of
           VInt k i \<Rightarrow> Some (VString (FormatInt i))
         | VUint k u \<Rightarrow> Some (VString (FormatUint u))
         | _ \<Rightarrow> None)
      else None)"

text \<open>
  The \<open>switch dt.Kind()\<close> of special-case conversions.  The result is the value the
  destination is set to, or \<open>None\<close> when no case returns and control reaches the final
  \<open>fmt.Errorf\<close>.
\<close>

definition assign_special :: "stdlib \<Rightarrow> gotype \<Rightarrow> val \<Rightarrow> val option" where
  "assign_special L dt src =
     (case Kind dt of
        KdString \<Rightarrow>
          (case src of
             VFloat k f \<Rightarrow> Some (VString (FormatFloat L f))
           | VBool b \<Rightarrow> Some (VString (FormatBool b))
           | _ \<Rightarrow> None)
      | KdInt k \<Rightarrow>
          (case src of
             VString s \<Rightarrow> map_option (SetInt k) (ParseInt L s (ibits k))
           | VBool b \<Rightarrow> Some (SetInt k (if b then 1 else 0))
           | _ \<Rightarrow> None)
      | KdUint k \<Rightarrow>
          (case src of
             VString s \<Rightarrow> map_option (SetUint k) (ParseUint L s (ubits k))
           | VBool b \<Rightarrow> Some (SetUint k (if b then 1 else 0))
           | _ \<Rightarrow> None)
      | KdFloat k \<Rightarrow>
          (case src of
             VString s \<Rightarrow> map_option (SetFloat L k) (ParseFloat L s (fbits k))
           | VBool b \<Rightarrow> Some (SetFloat L k (if b then float_one else 0))
           | _ \<Rightarrow> None)
      | KdBool \<Rightarrow>
          (case src of
             VString s \<Rightarrow> map_option VBool (ParseBool s)
           | VInt k i \<Rightarrow> Some (VBool (i \<noteq> 0))
           | VUint k u \<Rightarrow> Some (VBool (u \<noteq> 0))
           | VFloat k f \<Rightarrow> Some (VBool (float_nonzero f))
           | _ \<Rightarrow> None)
      | KdStruct \<Rightarrow>
          (if dt = TTime then
             (case src of
                VInt k i \<Rightarrow> Some (VTime (Time_UTC (time_Unix i 0)))
              | VUint k u \<Rightarrow> Some (VTime (Time_UTC (time_Unix (wrap_signed 64 u) 0)))
              | VFloat k f \<Rightarrow>
                  (case k of
                     KFloat64 \<Rightarrow> Some (VTime (Time_UTC (time_Unix (float_to_int64 L f) 0)))
                   | KFloat32 \<Rightarrow> None)
              | VString s \<Rightarrow>
                  (case time_Parse_RFC3339 L s of
                     Some t \<Rightarrow> Some (VTime t)
                   | None \<Rightarrow>
                       (case ParseInt L s 64 of
                          Some i \<Rightarrow> Some (VTime (Time_UTC (time_Unix i 0)))
                        | None \<Rightarrow> None))
              | _ \<Rightarrow> None)
           else None)
      | _ \<Rightarrow> None)"

text \<open>The type assertion \<open>dv.Interface().(sql.Scanner)\<close> and the call of \<open>Scan\<close>.\<close>

definition as_Scanner :: "stdlib \<Rightarrow> val \<Rightarrow> val \<Rightarrow> (error option \<times> val) option" where
  "as_Scanner L dv src =
     (case dv of
        VOpaque n h \<Rightarrow> map_option (\<lambda>(e, h'). (e, VOpaque n h')) (Scanner_Scan L n h src)
      | _ \<Rightarrow> None)"

text \<open>
  \<open>assign_elem L dt dv src\<close> is the part of \<open>assign\<close> after \<open>dv = dv.Elem()\<close>, for the
  variable of static type \<open>dt\<close> and current value \<open>dv\<close> the destination points to: the
  error returned and the variable's value afterwards.
\<close>

definition assign_elem :: "stdlib \<Rightarrow> gotype \<Rightarrow> val \<Rightarrow> val \<Rightarrow> panic + (error option \<times> val)" where
  "assign_elem L dt dv src =
     (case TypeOf src of
        None \<Rightarrow> Inl ReflectPanic
      | Some st \<Rightarrow>
          (case as_Scanner L dv src of
             Some (e, dv') \<Rightarrow> Inr (e, dv')
           | None \<Rightarrow>
               (case assign_format_int dt st src of
                  Some v \<Rightarrow> Inr (None, v)
                | None \<Rightarrow>
                    if ConvertibleTo st dt then Inr (None, Convert L src dt)
                    else
                      (case assign_special L dt src of
                         Some v \<Rightarrow> Inr (None, v)
                       | None \<Rightarrow> Inr (Some (CannotConvert src st dt), dv)))))"

text \<open>
  The file \<open>rows.go\<close> holds two revisions of these functions.  The model above is the
  later one, which has \<open>ScanStruct\<close> and formats integers before it asks
  \<open>ConvertibleTo\<close>.  The earlier revision differs in \<open>assign\<close> only after
  \<open>dv = dv.Elem()\<close>: it asks \<open>ConvertibleTo\<close> first and has its own switch of special
  cases, in which the case of a \<open>float64\<close> for a \<open>time.Time\<close> sets the destination and
  then falls through to the final error.  (Its call of \<open>fmt.Printf\<close> writes to the
  standard output and is left out.)
\<close>

definition assign_special_rev1 ::
  "stdlib \<Rightarrow> gotype \<Rightarrow> gotype \<Rightarrow> val \<Rightarrow> (error option \<times> val) option" where
  "assign_special_rev1 L dt st src =
     (case Kind dt of
        KdString \<Rightarrow>
          (case src of
             VInt k i \<Rightarrow> Some (None, VString (FormatInt i))
           | VUint k u \<Rightarrow> Some (None, VString (FormatUint u))
           | VFloat k f \<Rightarrow> Some (None, VString (FormatFloat L f))
           | VBool b \<Rightarrow> Some (None, VString (FormatBool b))
           | VBytes b \<Rightarrow> Some (None, VString (case b of None \<Rightarrow> [] | Some s \<Rightarrow> s))
           | _ \<Rightarrow> None)
      | KdInt k \<Rightarrow>
          (case src of
             VString s \<Rightarrow> map_option (\<lambda>i. (None, SetInt k i)) (ParseInt L s (ibits k))
           | VFloat fk f \<Rightarrow> Some (None, SetInt k (float_to_int64 L f))
           | VBool b \<Rightarrow> Some (None, SetInt k (if b then 1 else 0))
           | _ \<Rightarrow> None)
      | KdUint k \<Rightarrow>
          (case src of
             VString s \<Rightarrow> map_option (\<lambda>u. (None, SetUint k u)) (ParseUint L s (ubits k))
           | VFloat fk f \<Rightarrow> Some (None, SetUint k (float_to_uint64 L f))
           | VBool b \<Rightarrow> Some (None, SetUint k (if b then 1 else 0))
           | _ \<Rightarrow> None)
      | KdFloat k \<Rightarrow>
          (case src of
             VString s \<Rightarrow> map_option (\<lambda>f. (None, SetFloat L k f)) (ParseFloat L s (fbits k))
           | VInt ik i \<Rightarrow> Some (None, SetFloat L k (int64_to_float L i))
           | VBool b \<Rightarrow> Some (None, SetFloat L k (if b then float_one else 0))
           | _ \<Rightarrow> None)
      | KdBool \<Rightarrow>
          (case src of
             VString s \<Rightarrow> map_option (\<lambda>b. (None, VBool b)) (ParseBool s)
           | VInt k i \<Rightarrow> Some (None, VBool (i \<noteq> 0))
           | VFloat k f \<Rightarrow> Some (None, VBool (float_nonzero f))
           | _ \<Rightarrow> None)
      | KdSlice \<Rightarrow>
          (if dt = TBytes then
             (case src of
                VString s \<Rightarrow> Some (None, VBytes (Some s))
              | _ \<Rightarrow> None)
           else None)
      | KdStruct \<Rightarrow>
          (if dt = TTime then
             (case src of
                VInt k i \<Rightarrow> Some (None, VTime (Time_UTC (time_Unix i 0)))
              | VUint k u \<Rightarrow> Some (None, VTime (Time_UTC (time_Unix (wrap_signed 64 u) 0)))
              | VFloat k f \<Rightarrow>
                  (case k of
                     KFloat64 \<Rightarrow>
                       Some (Some (CannotConvert src st dt),
                             VTime (Time_UTC (time_Unix (float_to_int64 L f) 0)))
                   | KFloat32 \<Rightarrow> None)
              | _ \<Rightarrow> None)
           else None)
      | _ \<Rightarrow> None)"

definition assign_elem_rev1 :: "stdlib \<Rightarrow> gotype \<Rightarrow> val \<Rightarrow> val \<Rightarrow> panic + (error option \<times> val)" where
  "assign_elem_rev1 L dt dv src =
     (case TypeOf src of
        None \<Rightarrow> Inl ReflectPanic
      | Some st \<Rightarrow>
          (case as_Scanner L dv src of
             Some (e, dv') \<Rightarrow> Inr (e, dv')
           | None \<Rightarrow>
               if ConvertibleTo st dt then Inr (None, Convert L src dt)
               else
                 (case assign_special_rev1 L dt st src of
                    Some r \<Rightarrow> Inr r
                  | None \<Rightarrow> Inr (Some (CannotConvert src st dt), dv))))"

text \<open>
  Destinations are pointers, and two of them may point to the same variable, so the
  variables live in a store: a \<open>heap\<close> maps an address to the static type and the
  current value of the variable there.  A \<open>dest\<close> is what the caller passes as a
  destination: a pointer to a variable, a \<open>nil\<close> pointer, or something that is not a
  pointer at all (\<open>NotPointer VNil\<close> being the \<open>nil\<close> interface).
\<close>

type_synonym heap = "nat \<Rightarrow> gotype \<times> val"

datatype dest = NotPointer val | NilPointer | Pointer nat

definition assign :: "stdlib \<Rightarrow> heap \<Rightarrow> dest \<Rightarrow> val \<Rightarrow> panic + (error option \<times> heap)" where
  "assign L h dst src =
     (if src = VNil then
        (case dst of
           Pointer a \<Rightarrow> Inr (None, h(a := (fst (h a), Zero (fst (h a)))))
         | _ \<Rightarrow> Inl ReflectPanic)
      else
        (case dst of
           Pointer a \<Rightarrow>
             (case assign_elem L (fst (h a)) (snd (h a)) src of
                Inl p \<Rightarrow> Inl p
              | Inr (e, v) \<Rightarrow> Inr (e, h(a := (fst (h a), v))))
         | _ \<Rightarrow> Inr (Some (Plain ''destination must be a non-nil pointer''), h)))"

section \<open>Result sets and cursors\<close>

record QueryMeta =
  ChangedDB :: bool
  Changes :: int
  Duration :: float64
  LastRowID :: int
  RowsRead :: int
  RowsWritten :: int
  SizeAfter :: int

record RawResults =
  Columns :: "string list"
  Rows :: "val list list"

record RawQueryResult =
  Meta :: QueryMeta
  Results :: RawResults
  Success :: bool

record QueryResult =
  qMeta :: QueryMeta
  qResults :: "(string \<Rightarrow> val option) list"
  qSuccess :: bool

text \<open>
  A slice that may be \<open>nil\<close> is an optional list; \<open>len\<close> of the \<open>nil\<close> slice is 0.
  Records cannot share field names, so the fields of \<open>QueryResult\<close> and of \<open>Row\<close>
  carry a prefix.
\<close>

definition len :: "'a list option \<Rightarrow> nat" where
  "len s = (case s of None \<Rightarrow> 0 | Some xs \<Rightarrow> length xs)"

record Row =
  row_result :: "RawQueryResult option"
  row_fieldMap :: "(string \<Rightarrow> nat option) option"
  row_err :: "error option"

record Rows =
  result :: "RawQueryResult list option"
  rs :: "RawQueryResult option"
  current :: int
  currentSet :: int
  fieldMap :: "(string \<Rightarrow> nat option) option"
  err :: "error option"

text \<open>The receivers are pointers: a cursor is an optional record, \<open>None\<close> being the
  \<open>nil\<close> receiver.  \<open>rs\<close> points into \<open>result\<close>, which is never written after the
  cursor is made, so the model keeps a copy of the element.\<close>

definition newRow :: "RawQueryResult option \<Rightarrow> error option \<Rightarrow> Row option" where
  "newRow res e =
     (case e of
        Some x \<Rightarrow> Some \<lparr>row_result = None, row_fieldMap = None, row_err = Some x\<rparr>
      | None \<Rightarrow> Some \<lparr>row_result = res, row_fieldMap = None, row_err = None\<rparr>)"

definition newRows :: "RawQueryResult list option \<Rightarrow> error option \<Rightarrow> Rows option" where
  "newRows res e =
     (case e of
        Some x \<Rightarrow>
          Some \<lparr>result = None, rs = None, current = 0, currentSet = 0, fieldMap = None,
                err = Some x\<rparr>
      | None \<Rightarrow>
          Some \<lparr>result = res,
                rs = (case res of None \<Rightarrow> None | Some [] \<Rightarrow> None | Some (r0 # rest) \<Rightarrow> Some r0),
                current = - 1, currentSet = 0, fieldMap = None, err = None\<rparr>)"

definition Row_Err :: "Row option \<Rightarrow> error option" where
  "Row_Err p =
     (case p of
        None \<Rightarrow> Some ErrNoRows
      | Some r \<Rightarrow>
          if row_err r \<noteq> None then row_err r
          else
            (case row_result r of
               None \<Rightarrow> Some ErrNoRows
             | Some res \<Rightarrow> if length (Rows (Results res)) = 0 then Some ErrNoRows else None))"

definition Rows_Err :: "Rows option \<Rightarrow> panic + error option" where
  "Rows_Err p =
     (case p of
        None \<Rightarrow> Inr (Some ErrNoRows)
      | Some r \<Rightarrow>
          if err r \<noteq> None then Inr (err r)
          else if result r = None \<or> currentSet r \<ge> int (len (result r)) then
            Inr (Some ErrNoRows)
          else
            (case rs r of
               None \<Rightarrow> Inl NilDereference
             | Some s \<Rightarrow>
                 if length (Rows (Results s)) = 0 then Inr (Some ErrNoRows) else Inr None))"

text \<open>
  The loop of \<open>Scan\<close> over the values of a row, from column \<open>i\<close> on: it stops when
  the row or the destinations are used up, and returns the first error of \<open>assign\<close>
  wrapped with the column number.
\<close>

fun Scan_loop :: "stdlib \<Rightarrow> nat \<Rightarrow> val list \<Rightarrow> dest list \<Rightarrow> heap \<Rightarrow> panic + (error option \<times> heap)" where
  "Scan_loop L i [] dests h = Inr (None, h)"
| "Scan_loop L i (col # cols) dests h =
     (if i \<ge> length dests then Inr (None, h)
      else
        (case assign L h (dests ! i) col of
           Inl p \<Rightarrow> Inl p
         | Inr (Some e, h') \<Rightarrow> Inr (Some (Wrap (''column '' @ FormatInt (int i)) e), h')
         | Inr (None, h') \<Rightarrow> Scan_loop L (Suc i) cols dests h'))"

definition Row_Scan :: "stdlib \<Rightarrow> Row option \<Rightarrow> heap \<Rightarrow> dest list \<Rightarrow> panic + (error option \<times> heap)" where
  "Row_Scan L p h dests =
     (case Row_Err p of
        Some e \<Rightarrow> Inr (Some e, h)
      | None \<Rightarrow>
          (case p of
             None \<Rightarrow> Inl NilDereference
           | Some r \<Rightarrow>
               (case row_result r of
                  None \<Rightarrow> Inl NilDereference
                | Some res \<Rightarrow>
                    (case Rows (Results res) of
                       [] \<Rightarrow> Inl IndexOutOfRange
                     | row # rest \<Rightarrow> Scan_loop L 0 row dests h))))"

text \<open>\<open>x++\<close> on a 64-bit \<open>int\<close>.\<close>

definition incr :: "int \<Rightarrow> int" where
  "incr x = wrap_signed 64 (x + 1)"

definition Rows_Next :: "Rows option \<Rightarrow> panic + (bool \<times> Rows option)" where
  "Rows_Next p =
     (case Rows_Err p of
        Inl x \<Rightarrow> Inl x
      | Inr (Some e) \<Rightarrow> Inr (False, p)
      | Inr None \<Rightarrow>
          (case p of
             None \<Rightarrow> Inl NilDereference
           | Some r \<Rightarrow>
               (let r1 = r\<lparr>current := incr (current r)\<rparr> in
                (case rs r1 of
                   None \<Rightarrow> Inl NilDereference
                 | Some s \<Rightarrow>
                     if current r1 \<ge> int (length (Rows (Results s))) then Inr (False, Some r1)
                     else Inr (True, Some r1)))))"

definition Rows_NextSet :: "Rows option \<Rightarrow> panic + (bool \<times> Rows option)" where
  "Rows_NextSet p =
     (case Rows_Err p of
        Inl x \<Rightarrow> Inl x
      | Inr (Some e) \<Rightarrow> Inr (False, p)
      | Inr None \<Rightarrow>
          (case p of
             None \<Rightarrow> Inl NilDereference
           | Some r \<Rightarrow>
               (let r1 = r\<lparr>current := - 1, currentSet := incr (currentSet r)\<rparr> in
                if currentSet r1 \<ge> int (len (result r1)) then Inr (False, Some r1)
                else
                  (case result r1 of
                     None \<Rightarrow> Inl IndexOutOfRange
                   | Some sets \<Rightarrow>
                       if currentSet r1 < 0 then Inl IndexOutOfRange
                       else Inr (True, Some (r1\<lparr>rs := Some (sets ! nat (currentSet r1))\<rparr>))))))"

definition Rows_Scan :: "stdlib \<Rightarrow> Rows option \<Rightarrow> heap \<Rightarrow> dest list \<Rightarrow> panic + (error option \<times> heap)" where
  "Rows_Scan L p h dests =
     (case Rows_Err p of
        Inl x \<Rightarrow> Inl x
      | Inr (Some e) \<Rightarrow> Inr (Some e, h)
      | Inr None \<Rightarrow>
          (case p of
             None \<Rightarrow> Inl NilDereference
           | Some r \<Rightarrow>
               (case rs r of
                  None \<Rightarrow> Inl NilDereference
                | Some s \<Rightarrow>
                    if current r \<ge> int (length (Rows (Results s))) then Inr (Some ErrNoRows, h)
                    else if current r < 0 then Inl IndexOutOfRange
                    else Scan_loop L 0 (Rows (Results s) ! nat (current r)) dests h)))"

text \<open>
  Calls in sequence.  \<open>Next_times n p\<close> calls \<open>Next\<close> \<open>n\<close> times on the cursor \<open>p\<close> and
  collects the results.  \<open>run_calls\<close> makes a sequence of calls of \<open>Next\<close>, \<open>NextSet\<close>
  and \<open>Scan\<close> on a cursor and a store; \<open>Scan\<close> writes to the store only, and a panic
  ends the run.
\<close>

fun Next_times :: "nat \<Rightarrow> Rows option \<Rightarrow> panic + (bool list \<times> Rows option)" where
  "Next_times 0 p = Inr ([], p)"
| "Next_times (Suc n) p =
     (case Rows_Next p of
        Inl x \<Rightarrow> Inl x
      | Inr (b, p1) \<Rightarrow>
          (case Next_times n p1 of
             Inl x \<Rightarrow> Inl x
           | Inr (bs, p2) \<Rightarrow> Inr (b # bs, p2)))"

datatype call = CallNext | CallNextSet | CallScan "dest list"

fun run_calls :: "stdlib \<Rightarrow> call list \<Rightarrow> Rows option \<Rightarrow> heap \<Rightarrow> panic + (Rows option \<times> heap)" where
  "run_calls L [] p h = Inr (p, h)"
| "run_calls L (CallNext # cs) p h =
     (case Rows_Next p of Inl x \<Rightarrow> Inl x | Inr (b, p1) \<Rightarrow> run_calls L cs p1 h)"
| "run_calls L (CallNextSet # cs) p h =
     (case Rows_NextSet p of Inl x \<Rightarrow> Inl x | Inr (b, p1) \<Rightarrow> run_calls L cs p1 h)"
| "run_calls L (CallScan dests # cs) p h =
     (case Rows_Scan L p h dests of Inl x \<Rightarrow> Inl x | Inr (e, h1) \<Rightarrow> run_calls L cs p h1)"

text \<open>The number of rows of the active result set, and the cursor invariant as the
  data model words it: \<open>currentSet\<close> in \<open>[0, N)\<close> and \<open>current\<close> in \<open>[-1, rowCount)\<close>.\<close>

definition rowCount :: "Rows \<Rightarrow> int" where
  "rowCount r = (case rs r of None \<Rightarrow> 0 | Some s \<Rightarrow> int (length (Rows (Results s))))"


section \<open>Queries\<close>

text \<open>
  \<open>Client.sendRequest\<close> does the HTTP exchange; it is a parameter \<open>send\<close> of the
  model, taking the request path and the body (the statement text and the parameters)
  and returning the error or the decoded result.
\<close>

definition Query_body :: "string \<Rightarrow> val list \<Rightarrow> string \<times> val list" where
  "Query_body sql params = (let p2 = convertTypes params in (sql, convertTypes p2))"

definition RawQuery_body :: "string \<Rightarrow> val list \<Rightarrow> string \<times> val list" where
  "RawQuery_body sql params = (let p2 = convertTypes params in (sql, p2))"

definition Client_Query ::
  "(string \<Rightarrow> string \<times> val list \<Rightarrow> error + QueryResult list option) \<Rightarrow>
   string \<Rightarrow> string \<Rightarrow> val list \<Rightarrow> panic + (QueryResult option \<times> error option)" where
  "Client_Query send databaseID sql params =
     (let p2 = convertTypes params in
      (case send (''/database/'' @ databaseID @ ''/query'') (Query_body sql params) of
         Inl e \<Rightarrow> Inr (None, convertSQLiteError (Some e) sql p2)
       | Inr res \<Rightarrow>
           (case res of
              Some (r0 # rest) \<Rightarrow> Inr (Some r0, None)
            | _ \<Rightarrow> Inl IndexOutOfRange)))"

definition Client_RawQuery ::
  "(string \<Rightarrow> string \<times> val list \<Rightarrow> error + RawQueryResult list option) \<Rightarrow>
   string \<Rightarrow> string \<Rightarrow> val list \<Rightarrow> RawQueryResult list option \<times> error option" where
  "Client_RawQuery send databaseID sql params =
     (let p2 = convertTypes params in
      (case send (''/database/'' @ databaseID @ ''/raw'') (RawQuery_body sql params) of
         Inl e \<Rightarrow> (None, convertSQLiteError (Some e) sql p2)
       | Inr res \<Rightarrow> (res, None)))"

text \<open>\<open>Handle.QueryRow\<close> evaluates \<open>&result[0]\<close> before it calls \<open>newRow\<close>.\<close>

definition Handle_QueryRow ::
  "(string \<Rightarrow> string \<times> val list \<Rightarrow> error + RawQueryResult list option) \<Rightarrow>
   string \<Rightarrow> string \<Rightarrow> val list \<Rightarrow> panic + Row option" where
  "Handle_QueryRow send dbID sql params =
     (case Client_RawQuery send dbID sql params of
        (res, e) \<Rightarrow>
          (case res of
             Some (r0 # rest) \<Rightarrow> Inr (newRow (Some r0) e)
           | _ \<Rightarrow> Inl IndexOutOfRange))"

definition Handle_QueryRows ::
  "(string \<Rightarrow> string \<times> val list \<Rightarrow> error + RawQueryResult list option) \<Rightarrow>
   string \<Rightarrow> string \<Rightarrow> val list \<Rightarrow> Rows option" where
  "Handle_QueryRows send dbID sql params =
     (case Client_RawQuery send dbID sql params of (res, e) \<Rightarrow> newRows res e)"

section \<open>The record field mapper\<close>

text \<open>
  A struct type is the list of its fields; a field has a name and a tag, the tag being
  the list of its key-value pairs in the order they are written.  \<open>Tag_Get\<close> is
  \<open>reflect.StructTag.Get\<close>: the value of the first pair with the key, or the empty
  string.
\<close>

record StructField =
  Name :: string
  Tag :: "(string \<times> string) list"

definition Tag_Get :: "(string \<times> string) list \<Rightarrow> string \<Rightarrow> string" where
  "Tag_Get tag key = (case map_of tag key of None \<Rightarrow> [] | Some v \<Rightarrow> v)"

text \<open>\<open>strings.ToLower\<close>: a string of ASCII bytes is mapped byte by byte, any other
  string rune by rune through the Unicode tables.\<close>

definition lower_byte :: "char \<Rightarrow> char" where
  "lower_byte c =
     (if (65 :: int) \<le> of_char c \<and> of_char c \<le> (90 :: int) then char_of (of_char c + (32 :: int))
      else c)"

definition ToLower :: "stdlib \<Rightarrow> string \<Rightarrow> string" where
  "ToLower L s =
     (if list_all (\<lambda>c. of_char c < (128 :: int)) s then map lower_byte s
      else unicode_ToLower L s)"

fun createFieldMap_range ::
  "stdlib \<Rightarrow> nat \<Rightarrow> StructField list \<Rightarrow> (string \<Rightarrow> nat option) \<Rightarrow> (string \<Rightarrow> nat option)" where
  "createFieldMap_range L i [] fm = fm"
| "createFieldMap_range L i (field # rest) fm =
     createFieldMap_range L (Suc i) rest
       (if Tag_Get (Tag field) ''db'' \<noteq> [] then
          (if Tag_Get (Tag field) ''db'' = ''-'' then fm
           else fm(Tag_Get (Tag field) ''db'' \<mapsto> i))
        else if Tag_Get (Tag field) ''sql'' \<noteq> [] then
          (if Tag_Get (Tag field) ''sql'' = ''-'' then fm
           else fm(Tag_Get (Tag field) ''sql'' \<mapsto> i))
        else if Tag_Get (Tag field) ''json'' \<noteq> [] then
          (if Tag_Get (Tag field) ''json'' = ''-'' then fm
           else fm(Tag_Get (Tag field) ''json'' \<mapsto> i))
        else fm(ToLower L (Name field) \<mapsto> i))"

definition createFieldMap :: "stdlib \<Rightarrow> StructField list \<Rightarrow> (string \<Rightarrow> nat option)" where
  "createFieldMap L t = createFieldMap_range L 0 t Map.empty"

text \<open>
  \<open>scanStructWithMap\<close>: the destination struct is the list of the addresses of its
  fields, each with the flag \<open>CanSet\<close> (the field is exported).  A column whose
  lower-cased name is a key of the field map is assigned to the mapped field.
\<close>

fun scanStructWithMap_range ::
  "stdlib \<Rightarrow> nat \<Rightarrow> string list \<Rightarrow> val list \<Rightarrow> (nat \<times> bool) list \<Rightarrow>
   (string \<Rightarrow> nat option) \<Rightarrow> heap \<Rightarrow> panic + (error option \<times> heap)" where
  "scanStructWithMap_range L i [] row v fm h = Inr (None, h)"
| "scanStructWithMap_range L i (col # cols) row v fm h =
     (case fm (ToLower L col) of
        None \<Rightarrow> scanStructWithMap_range L (Suc i) cols row v fm h
      | Some fieldIndex \<Rightarrow>
          if fieldIndex \<ge> length v then Inl ReflectPanic
          else if \<not> snd (v ! fieldIndex) then scanStructWithMap_range L (Suc i) cols row v fm h
          else if i \<ge> length row then Inl IndexOutOfRange
          else if row ! i = VNil then
            scanStructWithMap_range L (Suc i) cols row v fm
              (h(fst (v ! fieldIndex) :=
                   (fst (h (fst (v ! fieldIndex))), Zero (fst (h (fst (v ! fieldIndex)))))))
          else
            (case assign L h (Pointer (fst (v ! fieldIndex))) (row ! i) of
               Inl x \<Rightarrow> Inl x
             | Inr (Some e, h1) \<Rightarrow> Inr (Some (Wrap (''error assigning column '' @ col) e), h1)
             | Inr (None, h1) \<Rightarrow> scanStructWithMap_range L (Suc i) cols row v fm h1))"

definition scanStructWithMap ::
  "stdlib \<Rightarrow> string list \<Rightarrow> val list \<Rightarrow> (nat \<times> bool) list \<Rightarrow>
   (string \<Rightarrow> nat option) \<Rightarrow> heap \<Rightarrow> panic + (error option \<times> heap)" where
  "scanStructWithMap L cols row v fm h = scanStructWithMap_range L 0 cols row v fm h"

section \<open>Example data\<close>

text \<open>The data of the first scenario: a result set with the columns \<open>id\<close> and
  \<open>name\<close>; a store whose variable 0 is an \<open>int\<close> and whose other variables are
  strings; a struct type with one tagged field.\<close>

definition example_meta :: QueryMeta where
  "example_meta =
     \<lparr>ChangedDB = False, Changes = 0, Duration = 0, LastRowID = 0, RowsRead = 0,
      RowsWritten = 0, SizeAfter = 0\<rparr>"

definition example_set :: "val list list \<Rightarrow> RawQueryResult" where
  "example_set rows =
     \<lparr>Meta = example_meta, Results = \<lparr>Columns = [''id'', ''name''], Rows = rows\<rparr>,
      Success = True\<rparr>"

definition example_heap :: heap where
  "example_heap a = (if a = 0 then (TInt KInt, VInt KInt 0) else (TString, VString []))"

definition example_struct :: "StructField list" where
  "example_struct = [\<lparr>Name = ''ID'', Tag = [(''db'', ''UserID'')]\<rparr>]"

text \<open>
  A run of the loop of \<open>Scan\<close> through its first \<open>k\<close> positions: \<open>hs j\<close> is the store
  before position \<open>j\<close> is handled, and at each position \<open>j\<close> below \<open>k\<close> the value \<open>j\<close>
  is assigned through the destination \<open>j\<close> without an error, which gives the store
  \<open>hs (Suc j)\<close>.
\<close>

definition assigned_in_turn ::
  "stdlib \<Rightarrow> val list \<Rightarrow> dest list \<Rightarrow> nat \<Rightarrow> (nat \<Rightarrow> heap) \<Rightarrow> bool" where
  "assigned_in_turn L vals dests k hs =
     (\<forall>j<k. assign L (hs j) (dests ! j) (vals ! j) = Inr (None, hs (Suc j)))"

text \<open>
  What the methods keep true of a cursor made by \<open>newRows res None\<close>: the sets are the
  ones it was made with, no error is carried, \<open>currentSet\<close> is between 0 and the number
  of sets (both included), \<open>rs\<close> is the set at \<open>currentSet\<close> while that is an index,
  and \<open>current\<close> is at least -1.
\<close>

definition cursor_inv :: "RawQueryResult list option \<Rightarrow> Rows \<Rightarrow> bool" where
  "cursor_inv res r =
     (result r = res \<and> err r = None \<and> 0 \<le> currentSet r \<and> currentSet r \<le> int (len res) \<and>
      (case res of
         None \<Rightarrow> True
       | Some sets \<Rightarrow>
           currentSet r \<ge> int (length sets) \<or> rs r = Some (sets ! nat (currentSet r))) \<and>
      - 1 \<le> current r)"

section \<open>Properties of the parameter conversion\<close>

lemma convertTypes_range_eq:
  "i + length vs \<le> length xs \<Longrightarrow>
   convertTypes_range i vs xs =
     take i xs @ map convertTypes_switch vs @ drop (i + length vs) xs"
proof (induction vs arbitrary: i xs)
  case Nil
  then show ?case by simp
next
  case (Cons v vs)
  have "i < length xs" using Cons.prems by simp
  then show ?case using Cons.prems
    by (simp add: Cons.IH upd_conv_take_nth_drop take_Suc_conv_app_nth add.commute)
qed

lemma convertTypes_map: "convertTypes ps = map convertTypes_switch ps"
  by (simp add: convertTypes_def convertTypes_range_eq)

lemma convertTypes_switch_idem:
  "convertTypes_switch (convertTypes_switch v) = convertTypes_switch v"
  by (cases v) (simp_all add: convertTypes_switch_def)

lemma convertTypes_idem: "convertTypes (convertTypes ps) = convertTypes ps"
  by (simp add: convertTypes_map convertTypes_switch_idem)

text \<open>
  Claim C10.  \<open>Client.Query\<close> and \<open>Client.RawQuery\<close> hand the transport the statement
  text together with the converted parameters, on the path of the database, and what
  they return is made of the transport's answer and of the converted parameters only.
  The converted list keeps its length; at every position a boolean has become the
  integer 1 or 0, a timestamp has become its Unix seconds taken in UTC (0 for the zero
  timestamp), every other value is the one passed in; and converting twice gives what
  converting once gives.
\<close>

theorem convertTypes_transforms_parameters:
  "length (convertTypes ps) = length ps \<and>
   (\<forall>i<length ps.
      convertTypes ps ! i =
        (case ps ! i of
           VBool b \<Rightarrow> VInt KInt (if b then 1 else 0)
         | VTime t \<Rightarrow> VInt KInt (if IsZero t then 0 else Time_Unix (Time_UTC t))
         | v \<Rightarrow> v)) \<and>
   convertTypes (convertTypes ps) = convertTypes ps \<and>
   snd (Query_body sql ps) = convertTypes ps \<and>
   snd (RawQuery_body sql ps) = convertTypes ps \<and>
   Client_Query sendq db sql ps =
     (case sendq (''/database/'' @ db @ ''/query'') (sql, convertTypes ps) of
        Inl e \<Rightarrow> Inr (None, convertSQLiteError (Some e) sql (convertTypes ps))
      | Inr res \<Rightarrow>
          (case res of
             Some (r0 # rest) \<Rightarrow> Inr (Some r0, None)
           | _ \<Rightarrow> Inl IndexOutOfRange)) \<and>
   Client_RawQuery send db sql ps =
     (case send (''/database/'' @ db @ ''/raw'') (sql, convertTypes ps) of
        Inl e \<Rightarrow> (None, convertSQLiteError (Some e) sql (convertTypes ps))
      | Inr res \<Rightarrow> (res, None))"
proof -
  have pointwise: "convertTypes ps ! i =
        (case ps ! i of
           VBool b \<Rightarrow> VInt KInt (if b then 1 else 0)
         | VTime t \<Rightarrow> VInt KInt (if IsZero t then 0 else Time_Unix (Time_UTC t))
         | v \<Rightarrow> v)" if "i < length ps" for i
    using that by (cases "ps ! i") (simp_all add: convertTypes_map convertTypes_switch_def)
  have len: "length (convertTypes ps) = length ps"
    by (simp add: convertTypes_map)
  have bodies: "snd (Query_body sql ps) = convertTypes ps \<and>
      snd (RawQuery_body sql ps) = convertTypes ps"
    by (simp add: Query_body_def RawQuery_body_def convertTypes_idem)
  have query: "Client_Query sendq db sql ps =
     (case sendq (''/database/'' @ db @ ''/query'') (sql, convertTypes ps) of
        Inl e \<Rightarrow> Inr (None, convertSQLiteError (Some e) sql (convertTypes ps))
      | Inr res \<Rightarrow>
          (case res of
             Some (r0 # rest) \<Rightarrow> Inr (Some r0, None)
           | _ \<Rightarrow> Inl IndexOutOfRange))"
    by (simp add: Client_Query_def Query_body_def convertTypes_idem Let_def)
  have raw: "Client_RawQuery send db sql ps =
     (case send (''/database/'' @ db @ ''/raw'') (sql, convertTypes ps) of
        Inl e \<Rightarrow> (None, convertSQLiteError (Some e) sql (convertTypes ps))
      | Inr res \<Rightarrow> (res, None))"
    by (simp add: Client_RawQuery_def RawQuery_body_def Let_def)
  show ?thesis
    using pointwise len bodies convertTypes_idem [of ps] query raw by blast
qed

theorem convertTypes_transforms_parameters_witness:
  "convertTypes [VBool True, VTime zero_time, VTime (Time 1257894000 0 Local), VString ''x'']
     ! 2 = VInt KInt 1257894000 \<and>
   convertTypes [VBool True, VTime zero_time, VTime (Time 1257894000 0 Local), VString ''x'']
     ! 1 = VInt KInt 0 \<and>
   Client_RawQuery (\<lambda>path body. Inr (Some [example_set [snd body]])) ''db'' ''SELECT ?''
     [VBool True, VTime zero_time, VTime (Time 1257894000 0 Local), VString ''x''] =
     (Some [example_set [[VInt KInt 1, VInt KInt 0, VInt KInt 1257894000, VString ''x'']]],
      None)"
proof -
  let ?ps = "[VBool True, VTime zero_time, VTime (Time 1257894000 0 Local), VString ''x'']"
  let ?send = "\<lambda>(path :: string) (body :: string \<times> val list).
      (Inr (Some [example_set [snd body]]) :: error + RawQueryResult list option)"
  note T = convertTypes_transforms_parameters [of ?ps "''SELECT ?''" _ "''db''" ?send]
  have len: "length (convertTypes ?ps) = 4" using T by simp
  have p0: "convertTypes ?ps ! 0 = VInt KInt 1"
    using T [THEN conjunct2, THEN conjunct1, rule_format, of 0] by simp
  have p1: "convertTypes ?ps ! 1 = VInt KInt 0"
    using T [THEN conjunct2, THEN conjunct1, rule_format, of 1] by (simp add: zero_time_def)
  have p2: "convertTypes ?ps ! 2 = VInt KInt 1257894000"
    using T [THEN conjunct2, THEN conjunct1, rule_format, of 2] by simp
  have p3: "convertTypes ?ps ! 3 = VString ''x''"
    using T [THEN conjunct2, THEN conjunct1, rule_format, of 3] by simp
  have all: "convertTypes ?ps = [VInt KInt 1, VInt KInt 0, VInt KInt 1257894000, VString ''x'']"
  proof (rule nth_equalityI)
    show "length (convertTypes ?ps) =
        length [VInt KInt 1, VInt KInt 0, VInt KInt 1257894000, VString ''x'']"
      using len by simp
  next
    fix i assume "i < length (convertTypes ?ps)"
    then have "i = 0 \<or> i = 1 \<or> i = 2 \<or> i = 3" using len by auto
    then show "convertTypes ?ps ! i =
        [VInt KInt 1, VInt KInt 0, VInt KInt 1257894000, VString ''x''] ! i"
      using p0 p1 p2 p3 by auto
  qed
  have raw: "Client_RawQuery ?send ''db'' ''SELECT ?'' ?ps =
      (Some [example_set [convertTypes ?ps]], None)"
    using T by simp
  show ?thesis using p1 p2 raw all by simp
qed

section \<open>Properties of the error classification\<close>







section \<open>Properties of the coercion engine\<close>

text \<open>
  Claim C2.  Assigning \<open>nil\<close> through a pointer to a variable sets the variable to the
  zero value of its static type and returns no error, whatever the type and the value
  before; the zero values of the supported kinds are the empty string, 0, 0.0,
  \<open>false\<close>, the \<open>nil\<close> byte slice and the zero timestamp.
\<close>

theorem assign_nil_sets_zero:
  "assign L h (Pointer a) VNil = Inr (None, h(a := (fst (h a), Zero (fst (h a))))) \<and>
   Zero TString = VString [] \<and> Zero (TInt k) = VInt k 0 \<and> Zero (TUint u) = VUint u 0 \<and>
   Zero (TFloat f) = VFloat f 0 \<and> Zero TBool = VBool False \<and> Zero TBytes = VBytes None \<and>
   Zero TTime = VTime zero_time"
  by (simp add: assign_def)

lemma digit_char_value: "0 \<le> d \<Longrightarrow> d < 10 \<Longrightarrow> of_char (digit_char d) = 48 + d"
  by (simp add: digit_char_def)

lemma digit_char_range: "0 \<le> d \<Longrightarrow> d < 10 \<Longrightarrow>
    (48 :: int) \<le> of_char (digit_char d) \<and> of_char (digit_char d) \<le> (57 :: int)"
  by (simp add: digit_char_value)

lemma FormatUint_value: "0 \<le> u \<Longrightarrow> digits_value (FormatUint u) = u"
proof (induction u rule: FormatUint.induct)
  case (1 u)
  show ?case
  proof (cases "u < 10")
    case True
    then show ?thesis using 1(2) by (simp add: digits_value_def digit_char_value)
  next
    case False
    have m: "0 \<le> u mod 10" "u mod 10 < 10" by simp_all
    have "digits_value (FormatUint (u div 10)) = u div 10"
      using 1 False by simp
    then have "digits_value (FormatUint (u div 10) @ [digit_char (u mod 10)]) =
        10 * (u div 10) + u mod 10"
      using m by (simp add: digits_value_def digit_char_value)
    then show ?thesis using False by (subst FormatUint.simps) simp
  qed
qed

lemma FormatUint_digits: "0 \<le> u \<Longrightarrow>
  list_all (\<lambda>c. (48 :: int) \<le> of_char c \<and> of_char c \<le> (57 :: int)) (FormatUint u)"
proof (induction u rule: FormatUint.induct)
  case (1 u)
  show ?case
  proof (cases "u < 10")
    case True
    then show ?thesis using 1(2) digit_char_range [of u] by simp
  next
    case False
    have "list_all (\<lambda>c. (48 :: int) \<le> of_char c \<and> of_char c \<le> (57 :: int)) (FormatUint (u div 10))"
      using 1 False by simp
    then show ?thesis using False digit_char_range [of "u mod 10"]
      by (subst FormatUint.simps) simp
  qed
qed

text \<open>
  What the later revision does with an integer source and a string destination: an
  \<open>int\<close> or a \<open>uint\<close> is written in decimal digits (\<open>FormatUint_value\<close> and
  \<open>FormatUint_digits\<close> say that these are the digits of the number); an integer of any
  other width is converted as a character code.
\<close>

lemma assign_int_formats_decimal:
  assumes "h a = (TString, VString s)"
  shows "assign L h (Pointer a) (VInt KInt i) = Inr (None, h(a := (TString, VString (FormatInt i)))) \<and>
         assign L h (Pointer a) (VUint KUint u) = Inr (None, h(a := (TString, VString (FormatUint u))))"
  using assms
  by (simp add: assign_def assign_elem_def as_Scanner_def assign_format_int_def)

lemma assign_other_widths_convert:
  assumes "h a = (TString, VString s)" and "k \<noteq> KInt"
  shows "assign L h (Pointer a) (VInt k i) = Inr (None, h(a := (TString, VString (cvtIntString i))))"
  using assms
  by (simp add: assign_def assign_elem_def as_Scanner_def assign_format_int_def)

text \<open>
  Claim C1, at the source \<open>int64(42)\<close> and a string destination: the block that
  formats integers is entered for the kinds \<open>Int\<close> and \<open>Uint\<close> only, so an \<open>int64\<close>
  reaches \<open>ConvertibleTo\<close> and the destination becomes \<open>"*"\<close>, the character with
  code 42.  The same number as an \<open>int\<close> gives \<open>"42"\<close>.  In the earlier revision
  \<open>ConvertibleTo\<close> comes first, and the \<open>int\<close> 42 gives \<open>"*"\<close> as well.
\<close>

theorem assign_int64_to_string:
  "assign L (\<lambda>a. (TString, VString [])) (Pointer 0) (VInt KInt64 42) =
     Inr (None, (\<lambda>a. (TString, VString []))(0 := (TString, VString ''*''))) \<and>
   assign L (\<lambda>a. (TString, VString [])) (Pointer 0) (VInt KInt 42) =
     Inr (None, (\<lambda>a. (TString, VString []))(0 := (TString, VString ''42''))) \<and>
   assign_elem_rev1 L TString (VString []) (VInt KInt 42) = Inr (None, VString ''*'')"
  by (simp add: assign_def assign_elem_def as_Scanner_def assign_format_int_def
      cvtIntString_def EncodeRune_def FormatInt_def digit_char_def char_of_def
      assign_elem_rev1_def)

section \<open>Properties of the cursors\<close>

text \<open>
  Claim C3, when the execution reports an error: \<open>Client.RawQuery\<close> returns the \<open>nil\<close>
  slice with the error, and \<open>Handle.QueryRow\<close> indexes that slice before \<open>newRow\<close> is
  called, so the call panics and no \<open>Row\<close> is made.
\<close>

theorem QueryRow_panics_on_error:
  "Handle_QueryRow (\<lambda>path body. Inl e) dbID sql params = Inl IndexOutOfRange"
  by (simp add: Handle_QueryRow_def Client_RawQuery_def)

lemma Row_with_error:
  "Row_Err (newRow res (Some e)) = Some e \<and>
   Row_Scan L (newRow res (Some e)) h dests = Inr (Some e, h)"
  by (simp add: Row_Err_def newRow_def Row_Scan_def)

text \<open>
  Claim C4, for a cursor that has just been made over a set with at least one row:
  \<open>Err\<close> is \<open>nil\<close>, \<open>current\<close> is -1, and \<open>Scan\<close> indexes the rows with -1 and
  panics.
\<close>

theorem Rows_Scan_before_Next_panics:
  "Rows_Scan L
     (newRows (Some (\<lparr>Meta = m, Results = \<lparr>Columns = cols, Rows = row # rows\<rparr>,
                      Success = s\<rparr> # rest)) None) h dests =
   Inl IndexOutOfRange"
  by (simp add: Rows_Scan_def Rows_Err_def newRows_def len_def)

section \<open>Properties of the field mapper\<close>

lemma ToLower_UserID: "ToLower L ''UserID'' = ''userid''"
  by (simp add: ToLower_def lower_byte_def char_of_def)

text \<open>
  Claim C8, for a struct whose field \<open>ID\<close> has the tag \<open>db:"UserID"\<close>: the key of the
  field map is the tag as written, \<open>"UserID"\<close>, which is not lower-cased; the lookup
  of \<open>scanStructWithMap\<close> lower-cases the column name, finds nothing, and leaves the
  field as it was.
\<close>

theorem createFieldMap_keeps_tag_case:
  "createFieldMap L example_struct ''UserID'' = Some 0 \<and>
   createFieldMap L example_struct (ToLower L ''UserID'') = None \<and>
   scanStructWithMap L [''UserID''] [VInt KInt 7] [(0, True)]
     (createFieldMap L example_struct) h = Inr (None, h)"
  by (simp add: createFieldMap_def example_struct_def Tag_Get_def ToLower_UserID
      scanStructWithMap_def)

section \<open>Properties of \<open>Scan\<close>\<close>

lemma assign_frame:
  assumes "assign L h d src = Inr (e, h')" and "d \<noteq> Pointer a"
  shows "h' a = h a"
  using assms
  by (cases d) (auto simp: assign_def split: if_splits sum.splits prod.splits)

lemma Scan_loop_frame:
  "Scan_loop L i row dests h = Inr (e, h') \<Longrightarrow>
   Pointer a \<notin> set (take (length row) (drop i dests)) \<Longrightarrow> h' a = h a"
proof (induction row arbitrary: i h)
  case Nil
  then show ?case by simp
next
  case (Cons col cols)
  show ?case
  proof (cases "i \<ge> length dests")
    case True
    then show ?thesis using Cons.prems by simp
  next
    case False
    then have i: "i < length dests" by simp
    have d: "drop i dests = dests ! i # drop (Suc i) dests"
      using i by (simp add: Cons_nth_drop_Suc)
    have ne: "dests ! i \<noteq> Pointer a"
      and tl: "Pointer a \<notin> set (take (length cols) (drop (Suc i) dests))"
      using Cons.prems(2) d by auto
    show ?thesis
    proof (cases "assign L h (dests ! i) col")
      case (Inl p)
      then show ?thesis using Cons.prems(1) i by simp
    next
      case (Inr r)
      obtain e1 h1 where r: "r = (e1, h1)" by (cases r)
      have h1: "h1 a = h a" using assign_frame [OF _ ne] Inr r by blast
      show ?thesis
      proof (cases e1)
        case None
        then have "Scan_loop L (Suc i) cols dests h1 = Inr (e, h')"
          using Cons.prems(1) i Inr r by simp
        then have "h' a = h1 a" using Cons.IH tl by blast
        then show ?thesis using h1 by simp
      next
        case (Some x)
        then have "h' = h1" using Cons.prems(1) i Inr r by simp
        then show ?thesis using h1 by simp
      qed
    qed
  qed
qed

lemma Scan_loop_take_row:
  "Scan_loop L i row dests h = Scan_loop L i (take (length dests - i) row) dests h"
proof (induction row arbitrary: i h)
  case Nil
  then show ?case by simp
next
  case (Cons col cols)
  show ?case
  proof (cases "i \<ge> length dests")
    case True
    then show ?thesis by simp
  next
    case False
    define k where "k = length dests - Suc i"
    have k: "length dests - i = Suc k" using False by (simp add: k_def)
    have ih: "\<And>h1. Scan_loop L (Suc i) cols dests h1 =
        Scan_loop L (Suc i) (take k cols) dests h1"
      using Cons.IH [of "Suc i"] by (simp add: k_def)
    show ?thesis
      using False
      by (simp add: k ih split: sum.splits prod.splits option.splits)
  qed
qed

lemma Scan_loop_take_dests:
  "Scan_loop L i row dests h = Scan_loop L i row (take (i + length row) dests) h"
proof (induction row arbitrary: i h)
  case Nil
  then show ?case by simp
next
  case (Cons col cols)
  show ?case
  proof (cases "i \<ge> length dests")
    case True
    then show ?thesis by simp
  next
    case False
    have ih: "Scan_loop L (Suc i) cols (take (Suc (i + length cols)) dests) h1 =
        Scan_loop L (Suc i) cols dests h1" for h1
      using Cons.IH [of "Suc i" h1, symmetric] by (simp only: add_Suc)
    have m: "\<not> min (length dests) (Suc (i + length cols)) \<le> i"
      using False by simp
    show ?thesis
      using False by (simp add: ih m split: sum.splits prod.splits option.splits)
  qed
qed

lemma Scan_loop_prefix:
  "Scan_loop L 0 row dests h =
     Scan_loop L 0 (take (min (length row) (length dests)) row)
       (take (min (length row) (length dests)) dests) h"
proof -
  have "Scan_loop L 0 row dests h = Scan_loop L 0 (take (length dests) row) dests h"
    using Scan_loop_take_row [of L 0 row dests h] by simp
  also have "\<dots> = Scan_loop L 0 (take (length dests) row)
      (take (length (take (length dests) row)) dests) h"
    using Scan_loop_take_dests [of L 0 "take (length dests) row" dests h] by simp
  also have "take (length dests) row = take (min (length row) (length dests)) row"
    by (simp add: min_def)
  finally show ?thesis by (simp add: min.commute)
qed

lemma Scan_loop_error:
  "Scan_loop L i row dests h = Inr (Some x, h') \<Longrightarrow>
   \<exists>j e0 h0. j < length row \<and> i + j < length dests \<and>
      x = Wrap (''column '' @ FormatInt (int (i + j))) e0 \<and>
      assign L h0 (dests ! (i + j)) (row ! j) = Inr (Some e0, h')"
proof (induction row arbitrary: i h)
  case Nil
  then show ?case by simp
next
  case (Cons col cols)
  have i: "i < length dests" using Cons.prems by (auto split: if_splits)
  show ?case
  proof (cases "assign L h (dests ! i) col")
    case (Inl p)
    then show ?thesis using Cons.prems i by simp
  next
    case (Inr r)
    obtain e1 h1 where r: "r = (e1, h1)" by (cases r)
    show ?thesis
    proof (cases e1)
      case None
      then have "Scan_loop L (Suc i) cols dests h1 = Inr (Some x, h')"
        using Cons.prems i Inr r by simp
      then obtain j e0 h0 where "j < length cols" "Suc i + j < length dests"
        "x = Wrap (''column '' @ FormatInt (int (Suc i + j))) e0"
        "assign L h0 (dests ! (Suc i + j)) (cols ! j) = Inr (Some e0, h')"
        using Cons.IH by blast
      then show ?thesis
        by (intro exI [of _ "Suc j"] exI [of _ e0] exI [of _ h0]) simp
    next
      case (Some e0)
      then have "x = Wrap (''column '' @ FormatInt (int i)) e0 \<and> h' = h1"
        using Cons.prems i Inr r by simp
      then show ?thesis using Inr r Some i
        by (intro exI [of _ 0] exI [of _ e0] exI [of _ h]) simp
    qed
  qed
qed

section \<open>Walking a cursor\<close>

lemma wrap_signed_id: "- (2 ^ 63) \<le> x \<Longrightarrow> x < 2 ^ 63 \<Longrightarrow> wrap_signed 64 x = x"
  by (simp add: wrap_signed_def)

lemma incr_id: "- 1 \<le> x \<Longrightarrow> x < 2 ^ 63 - 1 \<Longrightarrow> incr x = x + 1"
  by (simp add: incr_def wrap_signed_id)

lemma Rows_Err_nonempty:
  assumes "err r = None" "result r = Some sets" "currentSet r < int (length sets)"
    "rs r = Some s" "Rows (Results s) \<noteq> []"
  shows "Rows_Err (Some r) = Inr None"
  using assms by (simp add: Rows_Err_def len_def)

lemma Rows_Next_nonempty:
  assumes "err r = None" "result r = Some sets" "currentSet r < int (length sets)"
    "rs r = Some s" "Rows (Results s) \<noteq> []" "- 1 \<le> current r" "current r < 2 ^ 63 - 1"
  shows "Rows_Next (Some r) =
     Inr (current r + 1 < int (length (Rows (Results s))), Some (r\<lparr>current := current r + 1\<rparr>))"
  using assms by (simp add: Rows_Next_def Rows_Err_nonempty incr_id Let_def)

lemma upt_map_Suc: "map f [0..<Suc k] = f 0 # map (\<lambda>j. f (Suc j)) [0..<k]"
  by (simp only: upt_conv_Cons [of 0 "Suc k"] map_Suc_upt [symmetric] list.map map_map comp_def)

lemma Next_times_nonempty:
  assumes "err r = None" "result r = Some sets" "currentSet r < int (length sets)"
    "rs r = Some s" "Rows (Results s) \<noteq> []" "- 1 \<le> current r" "current r + int k < 2 ^ 63"
  shows "Next_times k (Some r) =
     Inr (map (\<lambda>j. current r + 1 + int j < int (length (Rows (Results s)))) [0..<k],
          Some (r\<lparr>current := current r + int k\<rparr>))"
  using assms
proof (induction k arbitrary: r)
  case 0
  then show ?case by simp
next
  case (Suc k)
  let ?r1 = "r\<lparr>current := current r + 1\<rparr>"
  have n: "Rows_Next (Some r) =
     Inr (current r + 1 < int (length (Rows (Results s))), Some ?r1)"
    using Suc.prems by (intro Rows_Next_nonempty) auto
  have ih: "Next_times k (Some ?r1) =
     Inr (map (\<lambda>j. current ?r1 + 1 + int j < int (length (Rows (Results s)))) [0..<k],
          Some (?r1\<lparr>current := current ?r1 + int k\<rparr>))"
    using Suc.prems by (intro Suc.IH) auto
  show ?case
    unfolding Next_times.simps n upt_map_Suc using ih
    by (auto simp: algebra_simps)
qed


lemma all_below: "map (\<lambda>j. int j < int N) [0..<N] = replicate N True"
  by (simp add: list_eq_iff_nth_eq)

lemma Rows_Next_empty:
  assumes "err r = None" "rs r = Some s" "Rows (Results s) = []"
  shows "Rows_Next (Some r) = Inr (False, Some r)"
  using assms by (simp add: Rows_Next_def Rows_Err_def)

lemma Rows_NextSet_empty:
  assumes "err r = None" "rs r = Some s" "Rows (Results s) = []"
  shows "Rows_NextSet (Some r) = Inr (False, Some r)"
  using assms by (simp add: Rows_NextSet_def Rows_Err_def)

lemma Rows_NextSet_exhausted:
  assumes "err r = None" "currentSet r \<ge> int (len (result r))"
  shows "Rows_NextSet (Some r) = Inr (False, Some r)"
  using assms by (simp add: Rows_NextSet_def Rows_Err_def)

lemma Rows_NextSet_nonempty:
  assumes "err r = None" "result r = Some sets" "0 \<le> currentSet r"
    "currentSet r < int (length sets)" "length sets < 2 ^ 63"
    "rs r = Some s" "Rows (Results s) \<noteq> []"
  shows "Rows_NextSet (Some r) =
     (if currentSet r + 1 < int (length sets) then
        Inr (True, Some (r\<lparr>current := - 1, currentSet := currentSet r + 1,
                            rs := Some (sets ! nat (currentSet r + 1))\<rparr>))
      else Inr (False, Some (r\<lparr>current := - 1, currentSet := currentSet r + 1\<rparr>)))"
proof -
  have "incr (currentSet r) = currentSet r + 1"
    using assms by (intro incr_id) auto
  then show ?thesis
    using assms by (simp add: Rows_NextSet_def Rows_Err_nonempty Let_def len_def)
qed

text \<open>
  Claim C5, as the code has it.  Let a cursor carry no error and stand before the
  first row of a set with \<open>N\<close> rows, the set at index \<open>currentSet\<close> of its sets (a Go
  slice has fewer than \<open>2^63\<close> elements).  Then \<open>N + 1\<close> calls of \<open>Next\<close> return
  \<open>true\<close> \<open>N\<close> times and then \<open>false\<close>.  \<open>NextSet\<close>, wherever the row cursor \<open>c\<close>
  stands: when the active set has a row, it resets the row cursor to -1 and adds one
  to \<open>currentSet\<close>, returning \<open>true\<close> and pointing \<open>rs\<close> at the next set while there
  is one, and \<open>false\<close> when there is none; when the active set has no row (\<open>Err\<close> is
  then the no-rows sentinel) it returns \<open>false\<close> and changes nothing; and once
  \<open>currentSet\<close> is the number of sets it returns \<open>false\<close> and changes nothing.
\<close>

theorem Next_and_NextSet_walk:
  assumes "result r = Some sets" and "err r = None"
    and "0 \<le> currentSet r" and "currentSet r < int (length sets)"
    and "rs r = Some (sets ! nat (currentSet r))"
    and "current r = - 1"
    and "N = length (Rows (Results (sets ! nat (currentSet r))))"
    and "N < 2 ^ 63" and "length sets < 2 ^ 63"
  shows "Next_times (Suc N) (Some r) =
      Inr (replicate N True @ [False], Some (r\<lparr>current := (if N = 0 then - 1 else int N)\<rparr>)) \<and>
    (\<forall>c. Rows_NextSet (Some (r\<lparr>current := c\<rparr>)) =
        (if N = 0 then Inr (False, Some (r\<lparr>current := c\<rparr>))
         else if currentSet r + 1 < int (length sets) then
           Inr (True, Some (r\<lparr>current := - 1, currentSet := currentSet r + 1,
                               rs := Some (sets ! nat (currentSet r + 1))\<rparr>))
         else Inr (False, Some (r\<lparr>current := - 1, currentSet := currentSet r + 1\<rparr>)))) \<and>
    (\<forall>c. Rows_NextSet (Some (r\<lparr>current := c, currentSet := int (length sets)\<rparr>)) =
        Inr (False, Some (r\<lparr>current := c, currentSet := int (length sets)\<rparr>)))"
proof (intro conjI allI)
  let ?s = "sets ! nat (currentSet r)"
  show "Next_times (Suc N) (Some r) =
      Inr (replicate N True @ [False], Some (r\<lparr>current := (if N = 0 then - 1 else int N)\<rparr>))"
  proof (cases "N = 0")
    case True
    then have e: "Rows (Results ?s) = []" using assms(7) by simp
    have "Rows_Next (Some r) = Inr (False, Some r)"
      using assms(2,5) e by (rule Rows_Next_empty)
    then show ?thesis using True assms(6) by simp
  next
    case False
    then have ne: "Rows (Results ?s) \<noteq> []" using assms(7) by auto
    have nt: "Next_times (Suc N) (Some r) =
       Inr (map (\<lambda>j. current r + 1 + int j < int (length (Rows (Results ?s)))) [0..<Suc N],
            Some (r\<lparr>current := current r + int (Suc N)\<rparr>))"
      using assms ne by (intro Next_times_nonempty) auto
    have m: "map (\<lambda>j. current r + 1 + int j < int (length (Rows (Results ?s)))) [0..<Suc N] =
        replicate N True @ [False]"
      unfolding assms(7) [symmetric] using assms(6)
      by (auto simp: list_eq_iff_nth_eq nth_append less_Suc_eq)
    have c: "current r + int (Suc N) = int N" using assms(6) by simp
    show ?thesis unfolding nt m c using False by simp
  qed
next
  fix c
  let ?s = "sets ! nat (currentSet r)"
  show "Rows_NextSet (Some (r\<lparr>current := c\<rparr>)) =
        (if N = 0 then Inr (False, Some (r\<lparr>current := c\<rparr>))
         else if currentSet r + 1 < int (length sets) then
           Inr (True, Some (r\<lparr>current := - 1, currentSet := currentSet r + 1,
                               rs := Some (sets ! nat (currentSet r + 1))\<rparr>))
         else Inr (False, Some (r\<lparr>current := - 1, currentSet := currentSet r + 1\<rparr>)))"
  proof (cases "N = 0")
    case True
    then have e: "Rows (Results ?s) = []" using assms(7) by simp
    have "Rows_NextSet (Some (r\<lparr>current := c\<rparr>)) = Inr (False, Some (r\<lparr>current := c\<rparr>))"
      using assms(2,5) e by (intro Rows_NextSet_empty [of _ ?s]) auto
    then show ?thesis using True by simp
  next
    case False
    then have ne: "Rows (Results ?s) \<noteq> []" using assms(7) by auto
    show ?thesis
      using False assms ne
      by (simp add: Rows_NextSet_nonempty [of "r\<lparr>current := c\<rparr>" sets ?s])
  qed
next
  fix c
  show "Rows_NextSet (Some (r\<lparr>current := c, currentSet := int (length sets)\<rparr>)) =
        Inr (False, Some (r\<lparr>current := c, currentSet := int (length sets)\<rparr>))"
    using assms(1,2) by (intro Rows_NextSet_exhausted) (auto simp: len_def)
qed

text \<open>
  The sentence of claim C5 about \<open>NextSet\<close> does not hold when the active set is
  empty: on a cursor over an empty set followed by a set with one row, \<open>NextSet\<close>
  returns \<open>false\<close> and leaves the cursor where it was, although a further set remains.
\<close>

theorem NextSet_stays_on_empty_set:
  "Rows_NextSet
     (newRows (Some [example_set [], example_set [[VInt KInt 1, VString ''Alice'']]]) None) =
   Inr (False,
        newRows (Some [example_set [], example_set [[VInt KInt 1, VString ''Alice'']]]) None)"
  by (simp add: Rows_NextSet_def Rows_Err_def newRows_def len_def example_set_def)

theorem Next_and_NextSet_walk_witness:
  "map_sum id fst
     (Next_times 3
        (newRows (Some [example_set [[VInt KInt 1, VString ''Alice''],
                                     [VInt KInt 2, VString ''Bob'']],
                        example_set [[VInt KInt 3, VString ''Carol'']]]) None)) =
   Inr [True, True, False] \<and>
   map_sum id fst
     (Rows_NextSet
        (newRows (Some [example_set [[VInt KInt 1, VString ''Alice''],
                                     [VInt KInt 2, VString ''Bob'']],
                        example_set [[VInt KInt 3, VString ''Carol'']]]) None)) =
   Inr True"
proof -
  let ?a = "example_set [[VInt KInt 1, VString ''Alice''], [VInt KInt 2, VString ''Bob'']]"
  let ?b = "example_set [[VInt KInt 3, VString ''Carol'']]"
  let ?r = "\<lparr>result = Some [?a, ?b], rs = Some ?a, current = - 1, currentSet = 0,
             fieldMap = None, err = None\<rparr>"
  have n: "newRows (Some [?a, ?b]) None = Some ?r"
    by (simp add: newRows_def)
  have w: "Next_times (Suc 2) (Some ?r) =
      Inr (replicate 2 True @ [False], Some (?r\<lparr>current := (if (2::nat) = 0 then - 1 else int 2)\<rparr>)) \<and>
    (\<forall>c. Rows_NextSet (Some (?r\<lparr>current := c\<rparr>)) =
        (if (2::nat) = 0 then Inr (False, Some (?r\<lparr>current := c\<rparr>))
         else if currentSet ?r + 1 < int (length [?a, ?b]) then
           Inr (True, Some (?r\<lparr>current := - 1, currentSet := currentSet ?r + 1,
                               rs := Some ([?a, ?b] ! nat (currentSet ?r + 1))\<rparr>))
         else Inr (False, Some (?r\<lparr>current := - 1, currentSet := currentSet ?r + 1\<rparr>)))) \<and>
    (\<forall>c. Rows_NextSet (Some (?r\<lparr>current := c, currentSet := int (length [?a, ?b])\<rparr>)) =
        Inr (False, Some (?r\<lparr>current := c, currentSet := int (length [?a, ?b])\<rparr>)))"
    by (rule Next_and_NextSet_walk) (simp_all add: example_set_def)
  from w have 1: "Next_times 3 (Some ?r) = Inr ([True, True, False], Some (?r\<lparr>current := 2\<rparr>))"
    by (simp add: numeral_2_eq_2 numeral_3_eq_3)
  from w have "Rows_NextSet (Some (?r\<lparr>current := - 1\<rparr>)) =
      Inr (True, Some (?r\<lparr>current := - 1, currentSet := currentSet ?r + 1,
                               rs := Some ([?a, ?b] ! nat (currentSet ?r + 1))\<rparr>))"
    by simp
  then have 2: "map_sum id fst (Rows_NextSet (Some ?r)) = Inr True"
    by simp
  show ?thesis unfolding n using 1 2 by simp
qed

section \<open>The cursor invariant\<close>


lemma Rows_Err_inv:
  assumes "cursor_inv res r"
  shows "Rows_Err (Some r) =
     Inr (if currentSet r \<ge> int (len res) \<or> rowCount r = 0 then Some ErrNoRows else None)"
  using assms
  by (auto simp: cursor_inv_def Rows_Err_def rowCount_def len_def split: option.splits)

lemma Rows_Next_inv:
  assumes "cursor_inv res r" and "current r < 2 ^ 63 - 1"
  shows "\<exists>b r'. Rows_Next (Some r) = Inr (b, Some r') \<and> cursor_inv res r' \<and>
            current r' \<le> current r + 1"
proof (cases "currentSet r \<ge> int (len res) \<or> rowCount r = 0")
  case True
  then have "Rows_Next (Some r) = Inr (False, Some r)"
    by (simp add: Rows_Next_def Rows_Err_inv [OF assms(1)])
  then show ?thesis using assms(1) by auto
next
  case False
  have i: "incr (current r) = current r + 1"
    using assms by (intro incr_id) (auto simp: cursor_inv_def)
  obtain s where s: "rs r = Some s"
    using False by (auto simp: rowCount_def split: option.splits)
  have "Rows_Next (Some r) =
      Inr (current r + 1 < int (length (Rows (Results s))), Some (r\<lparr>current := current r + 1\<rparr>))"
    using False s by (simp add: Rows_Next_def Rows_Err_inv [OF assms(1)] i Let_def)
  moreover have "cursor_inv res (r\<lparr>current := current r + 1\<rparr>)"
    using assms(1) by (auto simp: cursor_inv_def split: option.splits)
  ultimately show ?thesis by auto
qed

lemma Rows_NextSet_inv:
  assumes "cursor_inv res r" and "len res < 2 ^ 63"
  shows "\<exists>b r'. Rows_NextSet (Some r) = Inr (b, Some r') \<and> cursor_inv res r' \<and>
            current r' \<le> current r"
proof (cases "currentSet r \<ge> int (len res) \<or> rowCount r = 0")
  case True
  then have "Rows_NextSet (Some r) = Inr (False, Some r)"
    by (simp add: Rows_NextSet_def Rows_Err_inv [OF assms(1)])
  then show ?thesis using assms(1) by auto
next
  case False
  have i: "incr (currentSet r) = currentSet r + 1"
    using assms False by (intro incr_id) (auto simp: cursor_inv_def)
  obtain sets where sets: "res = Some sets" "result r = Some sets"
    using False assms(1) by (cases res) (auto simp: len_def cursor_inv_def)
  let ?r1 = "r\<lparr>current := - 1, currentSet := currentSet r + 1\<rparr>"
  have c: "- 1 \<le> current r" "0 \<le> currentSet r"
    using assms(1) by (auto simp: cursor_inv_def)
  show ?thesis
  proof (cases "currentSet r + 1 < int (length sets)")
    case True
    have "Rows_NextSet (Some r) =
        Inr (True, Some (?r1\<lparr>rs := Some (sets ! nat (currentSet r + 1))\<rparr>))"
      using False True sets c
      by (simp add: Rows_NextSet_def Rows_Err_inv [OF assms(1)] i Let_def len_def)
    moreover have "cursor_inv res (?r1\<lparr>rs := Some (sets ! nat (currentSet r + 1))\<rparr>)"
      using assms(1) True sets by (auto simp: cursor_inv_def len_def split: option.splits)
    ultimately show ?thesis using c by auto
  next
    case f: False
    have "Rows_NextSet (Some r) = Inr (False, Some ?r1)"
      using False f sets c
      by (simp add: Rows_NextSet_def Rows_Err_inv [OF assms(1)] i Let_def len_def)
    moreover have "cursor_inv res ?r1"
      using assms(1) f False sets by (auto simp: cursor_inv_def len_def split: option.splits)
    ultimately show ?thesis using c by auto
  qed
qed


text \<open>A run panics only in \<open>Scan\<close>: a sequence of calls of \<open>Next\<close> and \<open>NextSet\<close>
  always returns, and leaves the store alone.\<close>

lemma run_calls_without_Scan:
  "cursor_inv res r \<Longrightarrow> len res < 2 ^ 63 \<Longrightarrow> current r + int (length calls) \<le> 2 ^ 63 - 1 \<Longrightarrow>
   list_all (\<lambda>c. c = CallNext \<or> c = CallNextSet) calls \<Longrightarrow>
   \<exists>p. run_calls L calls (Some r) h = Inr (p, h)"
proof (induction calls arbitrary: r)
  case Nil
  then show ?case by simp
next
  case (Cons c cs)
  have rest: "list_all (\<lambda>c. c = CallNext \<or> c = CallNextSet) cs"
    using Cons.prems(4) by simp
  consider "c = CallNext" | "c = CallNextSet" using Cons.prems(4) by auto
  then show ?case
  proof cases
    case 1
    have "current r < 2 ^ 63 - 1" using Cons.prems(3) by simp
    then obtain b r1 where n: "Rows_Next (Some r) = Inr (b, Some r1)"
      and i1: "cursor_inv res r1" and c1: "current r1 \<le> current r + 1"
      using Rows_Next_inv [OF Cons.prems(1)] by blast
    have b: "current r1 + int (length cs) \<le> 2 ^ 63 - 1"
      using Cons.prems(3) c1 by simp
    show ?thesis
      using Cons.IH [OF i1 Cons.prems(2) b rest] 1 n by simp
  next
    case 2
    obtain b r1 where n: "Rows_NextSet (Some r) = Inr (b, Some r1)"
      and i1: "cursor_inv res r1" and c1: "current r1 \<le> current r"
      using Rows_NextSet_inv [OF Cons.prems(1,2)] by blast
    have b: "current r1 + int (length cs) \<le> 2 ^ 63 - 1"
      using Cons.prems(3) c1 by simp
    show ?thesis
      using Cons.IH [OF i1 Cons.prems(2) b rest] 2 n by simp
  qed
qed





section \<open>Positional scanning\<close>

lemma Row_Scan_loop:
  assumes "Row_Err (Some r) = None"
  shows "\<exists>res row rest. row_result r = Some res \<and> Rows (Results res) = row # rest \<and>
      Row_Scan L (Some r) h dests = Scan_loop L 0 row dests h"
  using assms
  by (auto simp: Row_Err_def Row_Scan_def split: option.splits if_splits list.splits)

lemma Rows_Scan_loop:
  assumes "Rows_Err (Some c) = Inr None" and "0 \<le> current c" and "current c < rowCount c"
  shows "\<exists>s. rs c = Some s \<and>
      Rows_Scan L (Some c) h dests =
        Scan_loop L 0 (Rows (Results s) ! nat (current c)) dests h"
  using assms
  by (auto simp: Rows_Scan_def rowCount_def split: option.splits if_splits)

lemma Scan_loop_done:
  "vals = [] \<or> length dests \<le> i \<Longrightarrow> Scan_loop L i vals dests h = Inr (None, h)"
  by (cases vals) auto

lemma Scan_loop_steps:
  "\<forall>j<k. assign L (hs j) (dests ! (i + j)) (vals ! j) = Inr (None, hs (Suc j)) \<Longrightarrow>
   k \<le> length vals \<Longrightarrow> i + k \<le> length dests \<Longrightarrow>
   Scan_loop L i vals dests (hs 0) = Scan_loop L (i + k) (drop k vals) dests (hs k)"
proof (induction k arbitrary: i vals hs)
  case 0
  then show ?case by simp
next
  case (Suc k)
  obtain v vs where vals: "vals = v # vs" using Suc.prems(2) by (cases vals) auto
  have i: "i < length dests" using Suc.prems(3) by simp
  have a0: "assign L (hs 0) (dests ! i) v = Inr (None, hs (Suc 0))"
    using Suc.prems(1) vals by force
  have step: "Scan_loop L i vals dests (hs 0) = Scan_loop L (Suc i) vs dests (hs (Suc 0))"
    using vals i a0 by simp
  have rest: "\<forall>j<k. assign L (hs (Suc j)) (dests ! (Suc i + j)) (vs ! j) =
      Inr (None, hs (Suc (Suc j)))"
  proof (intro allI impI)
    fix j assume "j < k"
    then have "assign L (hs (Suc j)) (dests ! (i + Suc j)) (vals ! Suc j) =
        Inr (None, hs (Suc (Suc j)))"
      using Suc.prems(1) [rule_format, of "Suc j"] by simp
    then show "assign L (hs (Suc j)) (dests ! (Suc i + j)) (vs ! j) =
        Inr (None, hs (Suc (Suc j)))"
      using vals by simp
  qed
  have "Scan_loop L (Suc i) vs dests ((\<lambda>j. hs (Suc j)) 0) =
      Scan_loop L (Suc i + k) (drop k vs) dests ((\<lambda>j. hs (Suc j)) k)"
    using rest Suc.prems(2,3) vals
    by (intro Suc.IH [of "\<lambda>j. hs (Suc j)" "Suc i" vs]) auto
  then show ?case using step vals by simp
qed


lemma Scan_loop_stop:
  assumes "k < length vals" and "k < length dests"
  shows "Scan_loop L k (drop k vals) dests hk =
     (case assign L hk (dests ! k) (vals ! k) of
        Inl p \<Rightarrow> Inl p
      | Inr (Some e, h') \<Rightarrow> Inr (Some (Wrap (''column '' @ FormatInt (int k)) e), h')
      | Inr (None, h') \<Rightarrow> Scan_loop L (Suc k) (drop (Suc k) vals) dests h')"
proof -
  have "drop k vals = vals ! k # drop (Suc k) vals"
    using assms(1) by (simp add: Cons_nth_drop_Suc)
  then show ?thesis using assms(2) by simp
qed

lemma Scan_loop_outcome:
  assumes "assigned_in_turn L vals dests k hs"
    and "k \<le> min (length vals) (length dests)"
  shows "Scan_loop L 0 vals dests (hs 0) =
     (if k = min (length vals) (length dests) then Inr (None, hs k)
      else
        (case assign L (hs k) (dests ! k) (vals ! k) of
           Inl p \<Rightarrow> Inl p
         | Inr (Some e, h') \<Rightarrow> Inr (Some (Wrap (''column '' @ FormatInt (int k)) e), h')
         | Inr (None, h') \<Rightarrow> Scan_loop L (Suc k) (drop (Suc k) vals) dests h'))"
proof -
  have steps: "\<forall>j<k. assign L (hs j) (dests ! (0 + j)) (vals ! j) = Inr (None, hs (Suc j))"
    using assms(1) by (simp add: assigned_in_turn_def)
  have "Scan_loop L 0 vals dests (hs 0) = Scan_loop L (0 + k) (drop k vals) dests (hs k)"
    using steps assms(2) by (intro Scan_loop_steps) auto
  then have eq: "Scan_loop L 0 vals dests (hs 0) = Scan_loop L k (drop k vals) dests (hs k)"
    by simp
  show ?thesis
  proof (cases "k = min (length vals) (length dests)")
    case True
    then have "drop k vals = [] \<or> length dests \<le> k" by (auto simp: min_def)
    then show ?thesis using eq True Scan_loop_done by simp
  next
    case False
    then have "k < length vals" "k < length dests" using assms(2) by auto
    then show ?thesis using eq False Scan_loop_stop by simp
  qed
qed

lemma longest_trace:
  "\<exists>k hs. k \<le> length vals \<and> (k = 0 \<or> i + k \<le> length dests) \<and> hs 0 = h \<and>
     (\<forall>j<k. assign L (hs j) (dests ! (i + j)) (vals ! j) = Inr (None, hs (Suc j))) \<and>
     (k = length vals \<or> length dests \<le> i + k \<or>
      (\<forall>h'. assign L (hs k) (dests ! (i + k)) (vals ! k) \<noteq> Inr (None, h')))"
proof (induction vals arbitrary: i h)
  case Nil
  show ?case by (intro exI [of _ 0] exI [of _ "\<lambda>j. h"]) simp
next
  case (Cons v vs)
  show ?case
  proof (cases "\<exists>h1. i < length dests \<and> assign L h (dests ! i) v = Inr (None, h1)")
    case False
    then show ?thesis
      by (intro exI [of _ 0] exI [of _ "\<lambda>j. h"]) (auto simp: not_less)
  next
    case True
    then obtain h1 where i: "i < length dests"
      and a: "assign L h (dests ! i) v = Inr (None, h1)" by blast
    obtain k hs where k: "k \<le> length vs" "k = 0 \<or> Suc i + k \<le> length dests" "hs 0 = h1"
      "\<forall>j<k. assign L (hs j) (dests ! (Suc i + j)) (vs ! j) = Inr (None, hs (Suc j))"
      "k = length vs \<or> length dests \<le> Suc i + k \<or>
        (\<forall>h'. assign L (hs k) (dests ! (Suc i + k)) (vs ! k) \<noteq> Inr (None, h'))"
      using Cons.IH [of "Suc i" h1] by blast
    let ?hs = "\<lambda>j. case j of 0 \<Rightarrow> h | Suc j' \<Rightarrow> hs j'"
    have steps: "\<forall>j<Suc k. assign L (?hs j) (dests ! (i + j)) ((v # vs) ! j) =
        Inr (None, ?hs (Suc j))"
    proof (intro allI impI)
      fix j assume j: "j < Suc k"
      show "assign L (?hs j) (dests ! (i + j)) ((v # vs) ! j) = Inr (None, ?hs (Suc j))"
      proof (cases j)
        case 0
        then show ?thesis using a k(3) by simp
      next
        case (Suc j')
        then have "j' < k" using j by simp
        then show ?thesis using k(4) [rule_format, of j'] Suc by simp
      qed
    qed
    have bound: "Suc k \<le> length (v # vs) \<and> i + Suc k \<le> length dests"
      using k(1,2) i by auto
    have stop: "Suc k = length (v # vs) \<or> length dests \<le> i + Suc k \<or>
        (\<forall>h'. assign L (?hs (Suc k)) (dests ! (i + Suc k)) ((v # vs) ! Suc k) \<noteq> Inr (None, h'))"
      using k(5) by simp
    show ?thesis
      using steps bound stop
      by (intro exI [of _ "Suc k"] exI [of _ ?hs]) simp
  qed
qed

lemma longest_trace_0:
  "\<exists>k hs. k \<le> min (length vals) (length dests) \<and> hs 0 = h \<and>
     assigned_in_turn L vals dests k hs \<and>
     (k = min (length vals) (length dests) \<or>
      (\<forall>h'. assign L (hs k) (dests ! k) (vals ! k) \<noteq> Inr (None, h')))"
proof -
  obtain k hs where k: "k \<le> length vals" "k = 0 \<or> 0 + k \<le> length dests" "hs 0 = h"
      "\<forall>j<k. assign L (hs j) (dests ! (0 + j)) (vals ! j) = Inr (None, hs (Suc j))"
      "k = length vals \<or> length dests \<le> 0 + k \<or>
        (\<forall>h'. assign L (hs k) (dests ! (0 + k)) (vals ! k) \<noteq> Inr (None, h'))"
    using longest_trace [of vals 0 dests h L] by blast
  have "k \<le> min (length vals) (length dests)" using k(1,2) by auto
  moreover have "assigned_in_turn L vals dests k hs"
    using k(4) by (simp add: assigned_in_turn_def)
  moreover have "k = min (length vals) (length dests) \<or>
      (\<forall>h'. assign L (hs k) (dests ! k) (vals ! k) \<noteq> Inr (None, h'))"
    using k(1,2,5) by (auto simp: min_def)
  ultimately show ?thesis using k(3) by blast
qed

lemma Scan_loop_nil_iff:
  "Scan_loop L 0 vals dests h = Inr (None, h') \<longleftrightarrow>
     (\<exists>hs. hs 0 = h \<and> hs (min (length vals) (length dests)) = h' \<and>
        assigned_in_turn L vals dests (min (length vals) (length dests)) hs)"
proof
  assume r: "Scan_loop L 0 vals dests h = Inr (None, h')"
  obtain k hs where k: "k \<le> min (length vals) (length dests)" "hs 0 = h"
    "assigned_in_turn L vals dests k hs"
    "k = min (length vals) (length dests) \<or>
      (\<forall>h'. assign L (hs k) (dests ! k) (vals ! k) \<noteq> Inr (None, h'))"
    using longest_trace_0 by blast
  have o: "Inr (None, h') =
     (if k = min (length vals) (length dests) then Inr (None, hs k)
      else
        (case assign L (hs k) (dests ! k) (vals ! k) of
           Inl p \<Rightarrow> Inl p
         | Inr (Some e, h') \<Rightarrow> Inr (Some (Wrap (''column '' @ FormatInt (int k)) e), h')
         | Inr (None, h') \<Rightarrow> Scan_loop L (Suc k) (drop (Suc k) vals) dests h'))"
    using Scan_loop_outcome [OF k(3,1)] r k(2) by simp
  have "k = min (length vals) (length dests)"
  proof (rule ccontr)
    assume n: "k \<noteq> min (length vals) (length dests)"
    then have "\<forall>h'. assign L (hs k) (dests ! k) (vals ! k) \<noteq> Inr (None, h')"
      using k(4) by blast
    then show False using o n
      by (auto split: sum.splits prod.splits option.splits)
  qed
  then show "\<exists>hs. hs 0 = h \<and> hs (min (length vals) (length dests)) = h' \<and>
        assigned_in_turn L vals dests (min (length vals) (length dests)) hs"
    using k(2,3) o by auto
next
  assume "\<exists>hs. hs 0 = h \<and> hs (min (length vals) (length dests)) = h' \<and>
        assigned_in_turn L vals dests (min (length vals) (length dests)) hs"
  then obtain hs where hs: "hs 0 = h" "hs (min (length vals) (length dests)) = h'"
    "assigned_in_turn L vals dests (min (length vals) (length dests)) hs" by blast
  show "Scan_loop L 0 vals dests h = Inr (None, h')"
    using Scan_loop_outcome [OF hs(3)] hs(1,2) by simp
qed


lemma Scan_loop_error_iff:
  "Scan_loop L 0 vals dests h = Inr (Some x, h') \<longleftrightarrow>
     (\<exists>k hs e0. k < min (length vals) (length dests) \<and> hs 0 = h \<and>
        assigned_in_turn L vals dests k hs \<and>
        assign L (hs k) (dests ! k) (vals ! k) = Inr (Some e0, h') \<and>
        x = Wrap (''column '' @ FormatInt (int k)) e0)"
proof
  assume r: "Scan_loop L 0 vals dests h = Inr (Some x, h')"
  obtain k hs where k: "k \<le> min (length vals) (length dests)" "hs 0 = h"
    "assigned_in_turn L vals dests k hs"
    "k = min (length vals) (length dests) \<or>
      (\<forall>h'. assign L (hs k) (dests ! k) (vals ! k) \<noteq> Inr (None, h'))"
    using longest_trace_0 by blast
  have o: "Inr (Some x, h') =
     (if k = min (length vals) (length dests) then Inr (None, hs k)
      else
        (case assign L (hs k) (dests ! k) (vals ! k) of
           Inl p \<Rightarrow> Inl p
         | Inr (Some e, h') \<Rightarrow> Inr (Some (Wrap (''column '' @ FormatInt (int k)) e), h')
         | Inr (None, h') \<Rightarrow> Scan_loop L (Suc k) (drop (Suc k) vals) dests h'))"
    using Scan_loop_outcome [OF k(3,1)] r k(2) by simp
  have n: "k \<noteq> min (length vals) (length dests)"
    using o by (auto split: if_splits)
  then have lt: "k < min (length vals) (length dests)" using k(1) by (rule le_neq_trans [rotated])
  have stop: "\<forall>h'. assign L (hs k) (dests ! k) (vals ! k) \<noteq> Inr (None, h')"
    using k(4) n by blast
  have "\<exists>e0. assign L (hs k) (dests ! k) (vals ! k) = Inr (Some e0, h') \<and>
      x = Wrap (''column '' @ FormatInt (int k)) e0"
    using o n stop by (auto split: sum.splits prod.splits option.splits)
  then show "\<exists>k hs e0. k < min (length vals) (length dests) \<and> hs 0 = h \<and>
        assigned_in_turn L vals dests k hs \<and>
        assign L (hs k) (dests ! k) (vals ! k) = Inr (Some e0, h') \<and>
        x = Wrap (''column '' @ FormatInt (int k)) e0"
    using lt k(2,3) by blast
next
  assume "\<exists>k hs e0. k < min (length vals) (length dests) \<and> hs 0 = h \<and>
        assigned_in_turn L vals dests k hs \<and>
        assign L (hs k) (dests ! k) (vals ! k) = Inr (Some e0, h') \<and>
        x = Wrap (''column '' @ FormatInt (int k)) e0"
  then obtain k hs e0 where k: "k < min (length vals) (length dests)" "hs 0 = h"
    "assigned_in_turn L vals dests k hs"
    "assign L (hs k) (dests ! k) (vals ! k) = Inr (Some e0, h')"
    "x = Wrap (''column '' @ FormatInt (int k)) e0" by blast
  have le: "k \<le> min (length vals) (length dests)" using k(1) by simp
  show "Scan_loop L 0 vals dests h = Inr (Some x, h')"
    using Scan_loop_outcome [OF k(3) le] k(1,2,4,5) by simp
qed

lemma Scan_loop_panic_iff:
  "Scan_loop L 0 vals dests h = Inl p \<longleftrightarrow>
     (\<exists>k hs. k < min (length vals) (length dests) \<and> hs 0 = h \<and>
        assigned_in_turn L vals dests k hs \<and>
        assign L (hs k) (dests ! k) (vals ! k) = Inl p)"
proof
  assume r: "Scan_loop L 0 vals dests h = Inl p"
  obtain k hs where k: "k \<le> min (length vals) (length dests)" "hs 0 = h"
    "assigned_in_turn L vals dests k hs"
    "k = min (length vals) (length dests) \<or>
      (\<forall>h'. assign L (hs k) (dests ! k) (vals ! k) \<noteq> Inr (None, h'))"
    using longest_trace_0 by blast
  have o: "Inl p =
     (if k = min (length vals) (length dests) then Inr (None, hs k)
      else
        (case assign L (hs k) (dests ! k) (vals ! k) of
           Inl p \<Rightarrow> Inl p
         | Inr (Some e, h') \<Rightarrow> Inr (Some (Wrap (''column '' @ FormatInt (int k)) e), h')
         | Inr (None, h') \<Rightarrow> Scan_loop L (Suc k) (drop (Suc k) vals) dests h'))"
    using Scan_loop_outcome [OF k(3,1)] r k(2) by simp
  have n: "k \<noteq> min (length vals) (length dests)"
    using o by (auto split: if_splits)
  then have lt: "k < min (length vals) (length dests)" using k(1) by (rule le_neq_trans [rotated])
  have stop: "\<forall>h'. assign L (hs k) (dests ! k) (vals ! k) \<noteq> Inr (None, h')"
    using k(4) n by blast
  have "assign L (hs k) (dests ! k) (vals ! k) = Inl p"
    using o n stop by (auto split: sum.splits prod.splits option.splits)
  then show "\<exists>k hs. k < min (length vals) (length dests) \<and> hs 0 = h \<and>
        assigned_in_turn L vals dests k hs \<and>
        assign L (hs k) (dests ! k) (vals ! k) = Inl p"
    using lt k(2,3) by blast
next
  assume "\<exists>k hs. k < min (length vals) (length dests) \<and> hs 0 = h \<and>
        assigned_in_turn L vals dests k hs \<and>
        assign L (hs k) (dests ! k) (vals ! k) = Inl p"
  then obtain k hs where k: "k < min (length vals) (length dests)" "hs 0 = h"
    "assigned_in_turn L vals dests k hs"
    "assign L (hs k) (dests ! k) (vals ! k) = Inl p" by blast
  have le: "k \<le> min (length vals) (length dests)" using k(1) by simp
  show "Scan_loop L 0 vals dests h = Inl p"
    using Scan_loop_outcome [OF k(3) le] k(1,2,4) by simp
qed

text \<open>
  Claim C9.  When \<open>Err\<close> is \<open>nil\<close>, \<open>Row.Scan\<close> runs the loop on the first row, and
  \<open>Rows.Scan\<close>, with a current row, on the row at \<open>current\<close>.  The loop over the
  values \<open>vals\<close> and the destinations \<open>dests\<close> does what it does on the first \<open>n\<close> of
  each, \<open>n\<close> being the smaller of the two lengths: values past the destinations are
  ignored.  When it returns, every variable that none of the first \<open>length vals\<close>
  destinations points to holds what it held before: destinations past the columns are
  not written.  An error it returns is an error of \<open>assign\<close> on a pair within both
  lists, wrapped with the column number: running out of values or destinations is no
  error.  The positions are handled in turn: the loop returns no error, with the store
  \<open>h'\<close>, exactly when assigning value 0 through destination 0, then value 1 through
  destination 1, and so on through position \<open>n - 1\<close>, succeeds each time and leads from
  the initial store to \<open>h'\<close>; it returns an error exactly when the positions below
  some \<open>k < n\<close> succeed in turn and \<open>assign\<close> on the pair \<open>k\<close> gives that error, which
  is returned wrapped with the column number \<open>k\<close>, with the store \<open>assign\<close> left; and
  it panics exactly when the positions below some \<open>k < n\<close> succeed in turn and \<open>assign\<close>
  on the pair \<open>k\<close> panics.
\<close>

theorem Scan_is_positional:
  "(Row_Err (Some r) = None \<longrightarrow>
      (\<exists>res row rest. row_result r = Some res \<and> Rows (Results res) = row # rest \<and>
          Row_Scan L (Some r) h dests = Scan_loop L 0 row dests h)) \<and>
   (Rows_Err (Some c) = Inr None \<and> 0 \<le> current c \<and> current c < rowCount c \<longrightarrow>
      (\<exists>s. rs c = Some s \<and>
          Rows_Scan L (Some c) h dests =
            Scan_loop L 0 (Rows (Results s) ! nat (current c)) dests h)) \<and>
   Scan_loop L 0 vals dests h =
     Scan_loop L 0 (take (min (length vals) (length dests)) vals)
       (take (min (length vals) (length dests)) dests) h \<and>
   (\<forall>e h'. Scan_loop L 0 vals dests h = Inr (e, h') \<longrightarrow>
      (\<forall>a. Pointer a \<notin> set (take (length vals) dests) \<longrightarrow> h' a = h a) \<and>
      (\<forall>x. e = Some x \<longrightarrow>
         (\<exists>j e0 h0. j < length vals \<and> j < length dests \<and>
            x = Wrap (''column '' @ FormatInt (int j)) e0 \<and>
            assign L h0 (dests ! j) (vals ! j) = Inr (Some e0, h')))) \<and>
   (\<forall>h'. Scan_loop L 0 vals dests h = Inr (None, h') \<longleftrightarrow>
      (\<exists>hs. hs 0 = h \<and> hs (min (length vals) (length dests)) = h' \<and>
         assigned_in_turn L vals dests (min (length vals) (length dests)) hs)) \<and>
   (\<forall>x h'. Scan_loop L 0 vals dests h = Inr (Some x, h') \<longleftrightarrow>
      (\<exists>k hs e0. k < min (length vals) (length dests) \<and> hs 0 = h \<and>
         assigned_in_turn L vals dests k hs \<and>
         assign L (hs k) (dests ! k) (vals ! k) = Inr (Some e0, h') \<and>
         x = Wrap (''column '' @ FormatInt (int k)) e0)) \<and>
   (\<forall>p. Scan_loop L 0 vals dests h = Inl p \<longleftrightarrow>
      (\<exists>k hs. k < min (length vals) (length dests) \<and> hs 0 = h \<and>
         assigned_in_turn L vals dests k hs \<and>
         assign L (hs k) (dests ! k) (vals ! k) = Inl p))"
proof (intro conjI allI impI)
  assume "Row_Err (Some r) = None"
  then show "\<exists>res row rest. row_result r = Some res \<and> Rows (Results res) = row # rest \<and>
      Row_Scan L (Some r) h dests = Scan_loop L 0 row dests h"
    by (rule Row_Scan_loop)
next
  assume "Rows_Err (Some c) = Inr None \<and> 0 \<le> current c \<and> current c < rowCount c"
  then show "\<exists>s. rs c = Some s \<and>
      Rows_Scan L (Some c) h dests =
        Scan_loop L 0 (Rows (Results s) ! nat (current c)) dests h"
    using Rows_Scan_loop by blast
next
  show "Scan_loop L 0 vals dests h =
     Scan_loop L 0 (take (min (length vals) (length dests)) vals)
       (take (min (length vals) (length dests)) dests) h"
    by (rule Scan_loop_prefix)
next
  fix e h' a
  assume "Scan_loop L 0 vals dests h = Inr (e, h')"
    and "Pointer a \<notin> set (take (length vals) dests)"
  then show "h' a = h a"
    using Scan_loop_frame [of L 0 vals dests h e h' a] by simp
next
  fix e h' x
  assume "Scan_loop L 0 vals dests h = Inr (e, h')" and "e = Some x"
  then have "Scan_loop L 0 vals dests h = Inr (Some x, h')" by simp
  from Scan_loop_error [OF this]
  show "\<exists>j e0 h0. j < length vals \<and> j < length dests \<and>
      x = Wrap (''column '' @ FormatInt (int j)) e0 \<and>
      assign L h0 (dests ! j) (vals ! j) = Inr (Some e0, h')"
    by simp
next
  fix h'
  show "Scan_loop L 0 vals dests h = Inr (None, h') \<longleftrightarrow>
      (\<exists>hs. hs 0 = h \<and> hs (min (length vals) (length dests)) = h' \<and>
         assigned_in_turn L vals dests (min (length vals) (length dests)) hs)"
    by (rule Scan_loop_nil_iff)
next
  fix x h'
  show "Scan_loop L 0 vals dests h = Inr (Some x, h') \<longleftrightarrow>
      (\<exists>k hs e0. k < min (length vals) (length dests) \<and> hs 0 = h \<and>
         assigned_in_turn L vals dests k hs \<and>
         assign L (hs k) (dests ! k) (vals ! k) = Inr (Some e0, h') \<and>
         x = Wrap (''column '' @ FormatInt (int k)) e0)"
    by (rule Scan_loop_error_iff)
next
  fix p
  show "Scan_loop L 0 vals dests h = Inl p \<longleftrightarrow>
      (\<exists>k hs. k < min (length vals) (length dests) \<and> hs 0 = h \<and>
         assigned_in_turn L vals dests k hs \<and>
         assign L (hs k) (dests ! k) (vals ! k) = Inl p)"
    by (rule Scan_loop_panic_iff)
qed

theorem Scan_is_positional_witness:
  "\<forall>L.
     Row_Scan L (newRow (Some (example_set [[VInt KInt 1, VString ''Alice'']])) None)
       example_heap [Pointer 0, Pointer 1, Pointer 2] =
     Inr (None, example_heap(0 := (TInt KInt, VInt KInt 1), 1 := (TString, VString ''Alice''))) \<and>
     Rows_Scan L
       (Some \<lparr>result = Some [example_set [[VInt KInt 1, VString ''Alice'']]],
              rs = Some (example_set [[VInt KInt 1, VString ''Alice'']]),
              current = 0, currentSet = 0, fieldMap = None, err = None\<rparr>)
       example_heap [Pointer 0] =
     Inr (None, example_heap(0 := (TInt KInt, VInt KInt 1)))"
proof
  fix L
  let ?set = "example_set [[VInt KInt 1, VString ''Alice'']]"
  let ?r = "\<lparr>row_result = Some ?set, row_fieldMap = None, row_err = None\<rparr>"
  let ?c = "\<lparr>result = Some [?set], rs = Some ?set, current = 0, currentSet = 0,
             fieldMap = None, err = None\<rparr>"
  let ?vals = "[VInt KInt 1, VString ''Alice'']"
  let ?d3 = "[Pointer 0, Pointer 1, Pointer 2]"
  let ?d1 = "[Pointer 0]"
  let ?h1 = "example_heap(0 := (TInt KInt, VInt KInt 1))"
  let ?h2 = "example_heap(0 := (TInt KInt, VInt KInt 1), 1 := (TString, VString ''Alice''))"
  let ?hs = "\<lambda>j::nat. if j = 0 then example_heap else if j = 1 then ?h1 else ?h2"
  have nr: "newRow (Some ?set) None = Some ?r"
    by (simp add: newRow_def)
  have h1: "Row_Err (Some ?r) = None"
    by (simp add: Row_Err_def example_set_def)
  have h2: "Rows_Err (Some ?c) = Inr None \<and> 0 \<le> current ?c \<and> current ?c < rowCount ?c"
    by (simp add: Rows_Err_def rowCount_def len_def example_set_def)
  have a0: "assign L example_heap (Pointer 0) (VInt KInt 1) = Inr (None, ?h1)"
    by (simp add: assign_def assign_elem_def as_Scanner_def assign_format_int_def
        example_heap_def SetInt_def wrap_signed_def)
  have a1: "assign L ?h1 (Pointer 1) (VString ''Alice'') = Inr (None, ?h2)"
    by (simp add: assign_def assign_elem_def as_Scanner_def assign_format_int_def
        example_heap_def SetInt_def wrap_signed_def)
  have t2: "assigned_in_turn L ?vals ?d3 2 ?hs"
    unfolding assigned_in_turn_def
  proof (intro allI impI)
    fix j :: nat assume "j < 2"
    then have "j = 0 \<or> j = 1" by auto
    then show "assign L (?hs j) (?d3 ! j) (?vals ! j) = Inr (None, ?hs (Suc j))"
      using a0 a1 by auto
  qed
  have t1: "assigned_in_turn L ?vals ?d1 1 ?hs"
    unfolding assigned_in_turn_def using a0 by simp
  note T3 = Scan_is_positional [of ?r L example_heap ?d3 ?c ?vals]
  note T1 = Scan_is_positional [of ?r L example_heap ?d1 ?c ?vals]
  have e3: "\<exists>hs. hs 0 = example_heap \<and> hs (min (length ?vals) (length ?d3)) = ?h2 \<and>
      assigned_in_turn L ?vals ?d3 (min (length ?vals) (length ?d3)) hs"
    using t2 by (intro exI [of _ ?hs]) (simp add: numeral_2_eq_2)
  have e1: "\<exists>hs. hs 0 = example_heap \<and> hs (min (length ?vals) (length ?d1)) = ?h1 \<and>
      assigned_in_turn L ?vals ?d1 (min (length ?vals) (length ?d1)) hs"
    using t1 by (intro exI [of _ ?hs]) simp
  have loop3: "Scan_loop L 0 ?vals ?d3 example_heap = Inr (None, ?h2)"
    using T3 [THEN conjunct2, THEN conjunct2, THEN conjunct2, THEN conjunct2, THEN conjunct1,
        rule_format, of ?h2] e3 by blast
  have loop1: "Scan_loop L 0 ?vals ?d1 example_heap = Inr (None, ?h1)"
    using T1 [THEN conjunct2, THEN conjunct2, THEN conjunct2, THEN conjunct2, THEN conjunct1,
        rule_format, of ?h1] e1 by blast
  have 1: "Row_Scan L (Some ?r) example_heap ?d3 = Inr (None, ?h2)"
    using T3 [THEN conjunct1] h1 loop3 by (auto simp: example_set_def)
  have 2: "Rows_Scan L (Some ?c) example_heap ?d1 = Inr (None, ?h1)"
    using T1 [THEN conjunct2, THEN conjunct1] h2 loop1 by (auto simp: example_set_def)
  show "Row_Scan L (newRow (Some ?set) None) example_heap ?d3 = Inr (None, ?h2) \<and>
     Rows_Scan L (Some ?c) example_heap ?d1 = Inr (None, ?h1)"
    unfolding nr using 1 2 by simp
qed

end
